theory Spec2Isabelle
  imports Main "HOL-Library.AList" "HOL-Library.Multiset"
begin

section \<open>Python values, strings and exceptions\<close>

text \<open>
  The permission layer of the backend works on dynamically typed JSON data: Graph
  responses, the metadata of indexed chunks, and the result of \<^verbatim>\<open>json.loads\<close>.
  \<open>pyval\<close> is that universe. A dict is an association list read left to right (Python
  keeps insertion order); the decoder below never produces a duplicate key.

  Scope of the model.
  \<^item> A \<open>string\<close> is a Python \<^verbatim>\<open>str\<close> whose code points are all below 256: the character
    \<open>c\<close> stands for the code point \<open>of_char c\<close>. \<open>py_lower\<close> and \<open>py_strip\<close> are
    \<^verbatim>\<open>str.lower\<close> and \<^verbatim>\<open>str.strip\<close> on that range.
  \<^item> Numbers are integers. Floating point is not modelled.
  \<^item> Where a result would leave this fragment the model answers \<open>Unmodelled\<close> and makes
    no statement about the program.
\<close>

datatype pyval =
    PNone
  | PBool bool
  | PInt int
  | PStr string
  | PList "pyval list"
  | PDict "(string \<times> pyval) list"

datatype exn =
    TypeError
  | AttributeError
  | JSONDecodeError
  | HTTPException nat
  | HTTPError
  | External string
  | Unmodelled

text \<open>Truthiness, as \<^verbatim>\<open>if v:\<close> and \<^verbatim>\<open>a or b\<close> test it.\<close>

fun truthy :: "pyval \<Rightarrow> bool" where
  "truthy PNone = False"
| "truthy (PBool b) = b"
| "truthy (PInt i) = (i \<noteq> 0)"
| "truthy (PStr s) = (s \<noteq> [])"
| "truthy (PList xs) = (xs \<noteq> [])"
| "truthy (PDict kvs) = (kvs \<noteq> [])"

definition py_or :: "pyval \<Rightarrow> pyval \<Rightarrow> pyval" where
  "py_or a b = (if truthy a then a else b)"

text \<open>\<^verbatim>\<open>d.get(k, default)\<close>: only a dict has the method.\<close>

fun py_get :: "pyval \<Rightarrow> string \<Rightarrow> pyval \<Rightarrow> exn + pyval" where
  "py_get (PDict kvs) k d = Inr (case map_of kvs k of None \<Rightarrow> d | Some v \<Rightarrow> v)"
| "py_get _ k d = Inl AttributeError"

text \<open>
  \<^verbatim>\<open>for x in v\<close>: a list yields its elements, a dict its keys, a string its characters
  (as one-character strings); nothing else is iterable.
\<close>

fun py_iter :: "pyval \<Rightarrow> exn + pyval list" where
  "py_iter (PList xs) = Inr xs"
| "py_iter (PDict kvs) = Inr (map (\<lambda>kv. PStr (fst kv)) kvs)"
| "py_iter (PStr s) = Inr (map (\<lambda>c. PStr [c]) s)"
| "py_iter _ = Inl TypeError"

definition lower_char :: "char \<Rightarrow> char" where
  "lower_char c =
     (let n = (of_char c :: nat)
      in if (65 \<le> n \<and> n \<le> 90) \<or> (192 \<le> n \<and> n \<le> 222 \<and> n \<noteq> 215)
         then char_of (n + 32) else c)"

definition py_lower :: "string \<Rightarrow> string" where
  "py_lower s = map lower_char s"

definition py_isspace :: "char \<Rightarrow> bool" where
  "py_isspace c =
     (let n = (of_char c :: nat)
      in (9 \<le> n \<and> n \<le> 13) \<or> (28 \<le> n \<and> n \<le> 32) \<or> n = 133 \<or> n = 160)"

definition py_strip :: "string \<Rightarrow> string" where
  "py_strip s = rev (dropWhile py_isspace (rev (dropWhile py_isspace s)))"

text \<open>\<^verbatim>\<open>s.split(c)\<close> for a one-character separator: never empty.\<close>

fun py_split :: "char \<Rightarrow> string \<Rightarrow> string list" where
  "py_split c [] = [[]]"
| "py_split c (x # xs) =
     (if x = c then [] # py_split c xs
      else (case py_split c xs of
              [] \<Rightarrow> [[x]]
            | y # ys \<Rightarrow> (x # y) # ys))"

text \<open>\<^verbatim>\<open>v.lower()\<close> and \<^verbatim>\<open>v.strip()\<close> on a value that may not be a string.\<close>

fun str_of :: "pyval \<Rightarrow> exn + string" where
  "str_of (PStr s) = Inr s"
| "str_of _ = Inl AttributeError"

section \<open>Configuration (app/core/config.py)\<close>

record settings =
  DEV_MODE :: bool
  ORG_DOMAINS :: string

section \<open>Authentication (app/core/auth.py)\<close>

record request =
  headers :: "string \<rightharpoonup> string"

text \<open>
  The user context returned by \<^verbatim>\<open>get_current_user\<close>; \<^verbatim>\<open>call_agent\<close> reads it with
  \<^verbatim>\<open>.get("email", "")\<close>, \<^verbatim>\<open>.get("name", "")\<close> and \<^verbatim>\<open>.get("dev_mode", False)\<close>.
\<close>

record user_info =
  email :: string
  name :: pyval
  is_authenticated :: bool
  dev_mode :: bool

text \<open>\<^verbatim>\<open>request.headers.get(k)\<close> and \<^verbatim>\<open>request.headers.get(k, d)\<close>.\<close>

definition header :: "request \<Rightarrow> string \<Rightarrow> pyval" where
  "header request k = (case headers request k of None \<Rightarrow> PNone | Some v \<Rightarrow> PStr v)"

definition header_or :: "request \<Rightarrow> string \<Rightarrow> string \<Rightarrow> string" where
  "header_or request k d = (case headers request k of None \<Rightarrow> d | Some v \<Rightarrow> v)"

text \<open>
  Lines 87-111: with no e-mail from the headers and a bearer token present, the claims
  of the token are read; any exception there becomes a 401. The decoding of the token
  (\<^verbatim>\<open>validate_sharepoint_token\<close>: base64, JSON and the clock) is the parameter
  \<open>validate_sharepoint_token\<close>.
\<close>

definition jwt_identity ::
  "(string \<Rightarrow> exn + pyval) \<Rightarrow> string \<Rightarrow> exn + (pyval \<times> pyval)" where
  "jwt_identity validate_sharepoint_token credentials =
     (case validate_sharepoint_token credentials of
        Inl e \<Rightarrow> Inl (HTTPException 401)
      | Inr payload \<Rightarrow>
          (case (py_get payload ''email'' PNone, py_get payload ''upn'' PNone,
                 py_get payload ''unique_name'' PNone, py_get payload ''preferred_username'' PNone,
                 py_get payload ''name'' PNone, py_get payload ''given_name'' PNone,
                 py_get payload ''family_name'' PNone) of
             (Inr e1, Inr e2, Inr e3, Inr e4, Inr n1, Inr n2, Inr n3) \<Rightarrow>
               Inr (py_or e1 (py_or e2 (py_or e3 e4)), py_or n1 (py_or n2 n3))
           | _ \<Rightarrow> Inl (HTTPException 401)))"

definition get_current_user ::
  "settings \<Rightarrow> (string \<Rightarrow> exn + pyval) \<Rightarrow> request \<Rightarrow> string option \<Rightarrow> exn + user_info" where
  "get_current_user settings validate_sharepoint_token request credentials =
     (let dev_mode_header = (py_lower (header_or request ''X-Dev-Mode'' []) = ''true'');
          dev_mode_enabled = (DEV_MODE settings \<and> dev_mode_header)
      in if dev_mode_enabled then
           (let user_email = header_or request ''X-User-Email'' ''dev@example.com''
            in if user_email = [] \<or> CHR ''@'' \<notin> set user_email
               then Inl (HTTPException 401)
               else Inr \<lparr>email = user_email,
                         name = PStr (header_or request ''X-SharePoint-User'' ''Developer''),
                         is_authenticated = True,
                         dev_mode = True\<rparr>)
         else
           (let sharepoint_user = header request ''X-SharePoint-User'';
                user_email0 =
                  (case sharepoint_user of
                     PStr s \<Rightarrow>
                       if s = [] then PNone
                       else if CHR ''|'' \<in> set s then PStr (last (py_split (CHR ''|'') s))
                       else PStr s
                   | _ \<Rightarrow> PNone);
                user_email1 =
                  (if \<not> truthy user_email0 then header request ''X-User-Email'' else user_email0);
                user_name1 =
                  py_or (header request ''X-User-Name'') (header request ''X-SharePoint-DisplayName'');
                from_token =
                  (case credentials of
                     Some c \<Rightarrow>
                       if \<not> truthy user_email1 then jwt_identity validate_sharepoint_token c
                       else Inr (user_email1, user_name1)
                   | None \<Rightarrow> Inr (user_email1, user_name1))
            in case from_token of
                 Inl e \<Rightarrow> Inl e
               | Inr (user_email2, user_name2) \<Rightarrow>
                   if \<not> truthy user_email2 then Inl (HTTPException 401)
                   else (case str_of user_email2 of
                           Inl e \<Rightarrow> Inl e
                         | Inr s \<Rightarrow>
                             (let user_email = py_lower (py_strip s)
                              in Inr \<lparr>email = user_email,
                                       name = py_or user_name2
                                                (PStr (hd (py_split (CHR ''@'') user_email))),
                                       is_authenticated = True,
                                       dev_mode = False\<rparr>))))"

section \<open>\<^verbatim>\<open>json.loads\<close> (Python standard library)\<close>

text \<open>
  The lexical layer. Whitespace is blank, tab, line feed and carriage return; it may
  stand between any two tokens and nowhere else. A string is scanned in strict mode
  (a raw control character is an error). The decoder is left with \<open>Unmodelled\<close> at
  a number with a fraction or exponent, at \<^verbatim>\<open>NaN\<close> and \<^verbatim>\<open>Infinity\<close>, at an integer of
  more than 4300 digits (the interpreter's conversion limit) and at a \<^verbatim>\<open>\u\<close> escape
  above U+00FF; it is also assumed that the nesting stays within the interpreter's
  recursion limit.
\<close>

datatype token =
    TLBracket | TRBracket | TLBrace | TRBrace | TComma | TColon
  | TString string
  | TLit pyval

definition emit :: "token \<Rightarrow> exn + token list \<Rightarrow> exn + token list" where
  "emit t r = (case r of Inl e \<Rightarrow> Inl e | Inr ts \<Rightarrow> Inr (t # ts))"

definition is_digit :: "char \<Rightarrow> bool" where
  "is_digit c = (48 \<le> (of_char c :: nat) \<and> (of_char c :: nat) \<le> 57)"

definition digit_val :: "char \<Rightarrow> nat" where
  "digit_val c = of_char c - 48"

definition hex_val :: "char \<Rightarrow> nat option" where
  "hex_val c =
     (let n = (of_char c :: nat)
      in if 48 \<le> n \<and> n \<le> 57 then Some (n - 48)
         else if 65 \<le> n \<and> n \<le> 70 then Some (n - 55)
         else if 97 \<le> n \<and> n \<le> 102 then Some (n - 87)
         else None)"

definition nat_of_digits :: "string \<Rightarrow> nat" where
  "nat_of_digits ds = foldl (\<lambda>v c. 10 * v + digit_val c) 0 ds"

definition punctuation :: "char \<Rightarrow> token option" where
  "punctuation c =
     (if c = CHR ''['' then Some TLBracket
      else if c = CHR '']'' then Some TRBracket
      else if c = CHR ''{'' then Some TLBrace
      else if c = CHR ''}'' then Some TRBrace
      else if c = CHR '','' then Some TComma
      else if c = CHR '':'' then Some TColon
      else None)"

definition simple_escape :: "char \<Rightarrow> char option" where
  "simple_escape c =
     (if c = CHR 0x22 then Some (CHR 0x22)
      else if c = CHR 0x5C then Some (CHR 0x5C)
      else if c = CHR ''/'' then Some (CHR ''/'')
      else if c = CHR ''b'' then Some (CHR 0x08)
      else if c = CHR ''f'' then Some (CHR 0x0C)
      else if c = CHR ''n'' then Some (CHR 0x0A)
      else if c = CHR ''r'' then Some (CHR 0x0D)
      else if c = CHR ''t'' then Some (CHR 0x09)
      else None)"

definition unicode_escape :: "char \<Rightarrow> char \<Rightarrow> char \<Rightarrow> char \<Rightarrow> exn + char" where
  "unicode_escape h1 h2 h3 h4 =
     (case (hex_val h1, hex_val h2, hex_val h3, hex_val h4) of
        (Some a, Some b, Some c, Some d) \<Rightarrow>
          if a = 0 \<and> b = 0 then Inr (char_of (16 * c + d)) else Inl Unmodelled
      | _ \<Rightarrow> Inl JSONDecodeError)"

datatype char_class =
    Space | Punct token | Quote | Word string pyval | Minus | Digit | Beyond | Bad

definition classify :: "char \<Rightarrow> char_class" where
  "classify c =
     (if c = CHR '' '' \<or> c = CHR 0x09 \<or> c = CHR 0x0A \<or> c = CHR 0x0D then Space
      else if c = CHR 0x22 then Quote
      else if c = CHR ''n'' then Word ''ull'' PNone
      else if c = CHR ''t'' then Word ''rue'' (PBool True)
      else if c = CHR ''f'' then Word ''alse'' (PBool False)
      else if c = CHR ''N'' \<or> c = CHR ''I'' then Beyond
      else if c = CHR ''-'' then Minus
      else if is_digit c then Digit
      else case punctuation c of Some t \<Rightarrow> Punct t | None \<Rightarrow> Bad)"

definition int_token :: "bool \<Rightarrow> string \<Rightarrow> exn + token" where
  "int_token negative ds =
     (if ds = [] then Inl JSONDecodeError
      else if hd ds = CHR ''0'' \<and> tl ds \<noteq> [] then Inl JSONDecodeError
      else if 4300 < length ds then Inl Unmodelled
      else Inr (TLit (PInt (if negative then - int (nat_of_digits ds) else int (nat_of_digits ds)))))"

definition emit_int :: "bool \<Rightarrow> string \<Rightarrow> exn + token list \<Rightarrow> exn + token list" where
  "emit_int negative ds r = (case int_token negative ds of Inl e \<Rightarrow> Inl e | Inr t \<Rightarrow> emit t r)"

fun lex :: "string \<Rightarrow> exn + token list"
and lex_word :: "string \<Rightarrow> pyval \<Rightarrow> string \<Rightarrow> exn + token list"
and lex_int :: "bool \<Rightarrow> string \<Rightarrow> string \<Rightarrow> exn + token list"
and lex_string :: "string \<Rightarrow> string \<Rightarrow> exn + token list"
and lex_escape :: "string \<Rightarrow> string \<Rightarrow> exn + token list"
where
  "lex [] = Inr []"
| "lex (c # cs) =
     (case classify c of
        Space \<Rightarrow> lex cs
      | Punct t \<Rightarrow> emit t (lex cs)
      | Quote \<Rightarrow> lex_string [] cs
      | Word w v \<Rightarrow> lex_word w v cs
      | Minus \<Rightarrow> lex_int True [] cs
      | Digit \<Rightarrow> lex_int False [c] cs
      | Beyond \<Rightarrow> Inl Unmodelled
      | Bad \<Rightarrow> Inl JSONDecodeError)"
| "lex_word [] v cs = Inl JSONDecodeError"
| "lex_word (w # ws) v [] = Inl JSONDecodeError"
| "lex_word (w # ws) v (c # cs) =
     (if c \<noteq> w then Inl JSONDecodeError
      else if ws = [] then emit (TLit v) (lex cs)
      else lex_word ws v cs)"
| "lex_int negative ds [] = emit_int negative (rev ds) (Inr [])"
| "lex_int negative ds (c # cs) =
     (if is_digit c then lex_int negative (c # ds) cs
      else if c = CHR ''.'' \<or> c = CHR ''e'' \<or> c = CHR ''E'' \<or> c = CHR ''I'' then Inl Unmodelled
      else case classify c of
        Space \<Rightarrow> emit_int negative (rev ds) (lex cs)
      | Punct t \<Rightarrow> emit_int negative (rev ds) (emit t (lex cs))
      | _ \<Rightarrow> Inl JSONDecodeError)"
| "lex_string acc [] = Inl JSONDecodeError"
| "lex_string acc (c # cs) =
     (if c = CHR 0x22 then emit (TString (rev acc)) (lex cs)
      else if c = CHR 0x5C then lex_escape acc cs
      else if (of_char c :: nat) < 32 then Inl JSONDecodeError
      else lex_string (c # acc) cs)"
| "lex_escape acc [] = Inl JSONDecodeError"
| "lex_escape acc (c # cs) =
     (if c = CHR ''u'' then
        (case cs of
           h1 # h2 # h3 # h4 # cs' \<Rightarrow>
             (case unicode_escape h1 h2 h3 h4 of
                Inl e \<Rightarrow> Inl e
              | Inr u \<Rightarrow> lex_string (u # acc) cs')
         | _ \<Rightarrow> Inl JSONDecodeError)
      else case simple_escape c of
        Some e \<Rightarrow> lex_string (e # acc) cs
      | None \<Rightarrow> Inl JSONDecodeError)"

text \<open>
  The grammar, as a pushdown automaton over the tokens: one step per token, the stack
  holding the containers that are still open. A repeated key of an object keeps its
  first position and takes the last value.
\<close>

datatype frame = InList "pyval list" | InDict "(string \<times> pyval) list" string

datatype pstate =
    SValue "frame list"
  | SFirst "frame list"
  | SList "pyval list" "frame list"
  | SKeyFirst "frame list"
  | SKey "(string \<times> pyval) list" "frame list"
  | SColon "(string \<times> pyval) list" string "frame list"
  | SDict "(string \<times> pyval) list" "frame list"
  | SDone pyval

fun complete :: "pyval \<Rightarrow> frame list \<Rightarrow> pstate" where
  "complete v [] = SDone v"
| "complete v (InList xs # st) = SList (xs @ [v]) st"
| "complete v (InDict kvs k # st) = SDict (AList.update k v kvs) st"

fun start_value :: "frame list \<Rightarrow> token \<Rightarrow> pstate option" where
  "start_value st (TLit v) = Some (complete v st)"
| "start_value st (TString s) = Some (complete (PStr s) st)"
| "start_value st TLBracket = Some (SFirst st)"
| "start_value st TLBrace = Some (SKeyFirst st)"
| "start_value st _ = None"

fun step :: "pstate \<Rightarrow> token \<Rightarrow> pstate option" where
  "step (SValue st) t = start_value st t"
| "step (SFirst st) t = (if t = TRBracket then Some (complete (PList []) st) else start_value (InList [] # st) t)"
| "step (SList xs st) t =
     (if t = TComma then Some (SValue (InList xs # st))
      else if t = TRBracket then Some (complete (PList xs) st)
      else None)"
| "step (SKeyFirst st) t =
     (case t of TRBrace \<Rightarrow> Some (complete (PDict []) st) | TString k \<Rightarrow> Some (SColon [] k st) | _ \<Rightarrow> None)"
| "step (SKey kvs st) t = (case t of TString k \<Rightarrow> Some (SColon kvs k st) | _ \<Rightarrow> None)"
| "step (SColon kvs k st) t = (if t = TColon then Some (SValue (InDict kvs k # st)) else None)"
| "step (SDict kvs st) t =
     (if t = TComma then Some (SKey kvs st)
      else if t = TRBrace then Some (complete (PDict kvs) st)
      else None)"
| "step (SDone v) t = None"

fun run :: "pstate \<Rightarrow> token list \<Rightarrow> pstate option" where
  "run s [] = Some s"
| "run s (t # ts) = (case step s t of None \<Rightarrow> None | Some s' \<Rightarrow> run s' ts)"

definition json_loads :: "string \<Rightarrow> exn + pyval" where
  "json_loads s =
     (case lex s of
        Inl e \<Rightarrow> Inl e
      | Inr ts \<Rightarrow>
          (case run (SValue []) ts of
             Some (SDone v) \<Rightarrow> Inr v
           | _ \<Rightarrow> Inl JSONDecodeError))"


section \<open>Organisation domains and group membership (\<^verbatim>\<open>app/services/document_permission.py\<close>)\<close>

definition get_org_domains :: "settings \<Rightarrow> string list" where
  "get_org_domains settings =
     map (\<lambda>d. py_lower (py_strip d))
         (filter (\<lambda>d. py_strip d \<noteq> []) (py_split (CHR '','') (ORG_DOMAINS settings)))"

text \<open>
  \<^verbatim>\<open>user_email.split("@")[1].lower() if "@" in user_email else ""\<close>: the piece between
  the first and the second \<^verbatim>\<open>@\<close>. The index is in range under the guard
  (lemma \<open>py_split_length\<close>).
\<close>

definition user_domain :: "string \<Rightarrow> string" where
  "user_domain user_email =
     (if CHR ''@'' \<in> set user_email then py_lower (py_split (CHR ''@'') user_email ! 1) else [])"

text \<open>
  The network as the code reaches it. \<open>get_access_token\<close> is the outcome of
  \<^verbatim>\<open>sharepoint_service.get_access_token()\<close>; \<open>requests_get url token\<close> is
  \<^verbatim>\<open>requests.get(url, headers={"Authorization": "Bearer " + token})\<close>;
  \<open>group_get group_id token\<close> is the same call on the group endpoint, whose address
  embeds the Python rendering of \<open>group_id\<close>. Answers are taken to be stable while one
  function runs.
\<close>

record response =
  status_code :: int
  json :: "exn + pyval"

record graph_api =
  get_access_token :: "exn + string"
  requests_get :: "string \<Rightarrow> string \<Rightarrow> exn + response"
  group_get :: "pyval \<Rightarrow> string \<Rightarrow> exn + response"

definition raise_for_status :: "response \<Rightarrow> exn + unit" where
  "raise_for_status r =
     (if 400 \<le> status_code r \<and> status_code r < 600 then Inl HTTPError else Inr ())"

definition sharepoint_site_groups :: "pyval list" where
  "sharepoint_site_groups = [PStr ''demo Owners'', PStr ''demo Members'', PStr ''demo Visitors'']"

text \<open>
  Line 28, for one element \<open>g\<close>:
  \<^verbatim>\<open>"@" in g or (len(g) > 30 and not g.startswith("demo "))\<close>.
\<close>

fun is_azure_ad_group :: "pyval \<Rightarrow> exn + bool" where
  "is_azure_ad_group (PStr s) =
     Inr (CHR ''@'' \<in> set s \<or> (30 < length s \<and> take 5 s \<noteq> ''demo ''))"
| "is_azure_ad_group (PList xs) =
     (if PStr ''@'' \<in> set xs then Inr True
      else if 30 < length xs then Inl AttributeError
      else Inr False)"
| "is_azure_ad_group (PDict kvs) =
     (if ''@'' \<in> fst ` set kvs then Inr True
      else if 30 < length kvs then Inl AttributeError
      else Inr False)"
| "is_azure_ad_group _ = Inl TypeError"

fun filter_azure_ad_groups :: "pyval list \<Rightarrow> exn + pyval list" where
  "filter_azure_ad_groups [] = Inr []"
| "filter_azure_ad_groups (g # gs) =
     (case is_azure_ad_group g of
        Inl e \<Rightarrow> Inl e
      | Inr keep \<Rightarrow>
          (case filter_azure_ad_groups gs of
             Inl e \<Rightarrow> Inl e
           | Inr r \<Rightarrow> Inr (if keep then g # r else r)))"

text \<open>Line 42: \<^verbatim>\<open>{g.get("displayName", "").lower() for g in user_groups}\<close>.\<close>

fun user_group_names :: "pyval list \<Rightarrow> exn + string list" where
  "user_group_names [] = Inr []"
| "user_group_names (g # gs) =
     (case py_get g ''displayName'' (PStr []) of
        Inl e \<Rightarrow> Inl e
      | Inr d \<Rightarrow>
          (case str_of d of
             Inl e \<Rightarrow> Inl e
           | Inr s \<Rightarrow>
               (case user_group_names gs of
                  Inl e \<Rightarrow> Inl e
                | Inr r \<Rightarrow> Inr (py_lower s # r))))"

text \<open>Line 43: \<^verbatim>\<open>{g.get("mail", "").lower() for g in user_groups if g.get("mail")}\<close>.\<close>

fun user_group_emails :: "pyval list \<Rightarrow> exn + string list" where
  "user_group_emails [] = Inr []"
| "user_group_emails (g # gs) =
     (case py_get g ''mail'' PNone of
        Inl e \<Rightarrow> Inl e
      | Inr m \<Rightarrow>
          if truthy m then
            (case str_of m of
               Inl e \<Rightarrow> Inl e
             | Inr s \<Rightarrow>
                 (case user_group_emails gs of
                    Inl e \<Rightarrow> Inl e
                  | Inr r \<Rightarrow> Inr (py_lower s # r)))
          else user_group_emails gs)"

text \<open>Lines 45-49: the first candidate decides, or raises when it is no string.\<close>

fun match_groups :: "pyval list \<Rightarrow> string list \<Rightarrow> string list \<Rightarrow> exn + bool" where
  "match_groups [] names emails = Inr False"
| "match_groups (g # gs) names emails =
     (case str_of g of
        Inl e \<Rightarrow> Inl e
      | Inr s \<Rightarrow>
          if py_lower s \<in> set names \<or> py_lower s \<in> set emails then Inr True
          else match_groups gs names emails)"

definition member_of_url :: "string \<Rightarrow> string" where
  "member_of_url user_email = ''https://graph.microsoft.com/v1.0/users/'' @ user_email @ ''/memberOf''"

text \<open>Lines 32-49, once the candidates \<open>azure_ad_groups\<close> are known to be non-empty.\<close>

definition directory_lookup :: "graph_api \<Rightarrow> string \<Rightarrow> pyval list \<Rightarrow> exn + bool" where
  "directory_lookup sharepoint_service user_email azure_ad_groups =
     (case get_access_token sharepoint_service of
        Inl e \<Rightarrow> Inl e
      | Inr token \<Rightarrow>
          (case requests_get sharepoint_service (member_of_url user_email) token of
             Inl e \<Rightarrow> Inl e
           | Inr response \<Rightarrow>
               if status_code response \<noteq> 200 then Inr False
               else
                 (case json response of
                    Inl e \<Rightarrow> Inl e
                  | Inr body \<Rightarrow>
                      (case py_get body ''value'' (PList []) of
                         Inl e \<Rightarrow> Inl e
                       | Inr value \<Rightarrow>
                           (case py_iter value of
                              Inl e \<Rightarrow> Inl e
                            | Inr user_groups \<Rightarrow>
                                (case user_group_names user_groups of
                                   Inl e \<Rightarrow> Inl e
                                 | Inr names \<Rightarrow>
                                     (case user_group_emails user_groups of
                                        Inl e \<Rightarrow> Inl e
                                      | Inr emails \<Rightarrow>
                                          match_groups azure_ad_groups names emails)))))))"

text \<open>
  The body of the \<^verbatim>\<open>try\<close> of \<^verbatim>\<open>check_user_group_membership\<close> (lines 19-49).
  \<open>groups\<close> is iterated at line 24 (inside the domain test) or else at line 28, with the
  same \<^verbatim>\<open>TypeError\<close> when it is not iterable; the model iterates it once, up front.
\<close>

definition check_user_group_membership_body ::
  "settings \<Rightarrow> string \<Rightarrow> pyval \<Rightarrow> graph_api \<Rightarrow> exn + bool" where
  "check_user_group_membership_body settings user_email groups sharepoint_service =
     (case py_iter groups of
        Inl e \<Rightarrow> Inl e
      | Inr gs \<Rightarrow>
          if user_domain user_email \<in> set (get_org_domains settings)
             \<and> (\<exists>g \<in> set gs. g \<in> set sharepoint_site_groups)
          then Inr True
          else
            (case filter_azure_ad_groups gs of
               Inl e \<Rightarrow> Inl e
             | Inr azure_ad_groups \<Rightarrow>
                 if azure_ad_groups = [] then Inr False
                 else directory_lookup sharepoint_service user_email azure_ad_groups))"

text \<open>Lines 51-52: \<^verbatim>\<open>except Exception: return False\<close>.\<close>

definition check_user_group_membership ::
  "settings \<Rightarrow> string \<Rightarrow> pyval \<Rightarrow> graph_api \<Rightarrow> bool" where
  "check_user_group_membership settings user_email groups sharepoint_service =
     (case check_user_group_membership_body settings user_email groups sharepoint_service of
        Inl e \<Rightarrow> False
      | Inr b \<Rightarrow> b)"

section \<open>Permission aggregation (\<^verbatim>\<open>app/services/document_permission.py\<close>)\<close>

record sharing_link =
  link_type :: pyval
  scope :: pyval
  webUrl :: pyval
  application :: pyval

text \<open>
  The dict \<^verbatim>\<open>result\<close> while the entries are processed (lines 76-83). \<open>users\<close> and
  \<open>groups\<close> are Python sets: kept here as lists without repetition, whose order means
  nothing (Python's is unspecified as well). Group identifiers that are no strings are
  told apart by their shape, which is finer than Python's equality on numbers and
  booleans.
\<close>

record result =
  users :: "string list"
  groups :: "pyval list"
  access_level :: string
  inheritance :: bool
  sharing_links :: "sharing_link list"

text \<open>
  What \<^verbatim>\<open>get_document_permissions\<close> returns: every key of the dict that may be missing
  is an option. \<open>error\<close> holds the exception whose text the code stores.
\<close>

record permissions =
  p_users :: "string list"
  p_groups :: "pyval list"
  p_access_level :: string
  p_inheritance :: "bool option"
  p_sharing_links :: "sharing_link list option"
  p_raw_permissions :: "pyval option"
  p_error :: "exn option"

text \<open>One statement after another: an exception of the first skips the second.\<close>

definition seq ::
  "(result \<Rightarrow> exn + result) \<Rightarrow> (result \<Rightarrow> exn + result) \<Rightarrow> result \<Rightarrow> exn + result" where
  "seq f g r = (case f r of Inl e \<Rightarrow> Inl e | Inr r' \<Rightarrow> g r')"

text \<open>\<^verbatim>\<open>result["groups"].add(g)\<close>: a list or a dict cannot be hashed.\<close>

fun add_group :: "pyval \<Rightarrow> result \<Rightarrow> exn + result" where
  "add_group (PList xs) r = Inl TypeError"
| "add_group (PDict kvs) r = Inl TypeError"
| "add_group g r = Inr (r\<lparr>groups := List.insert g (groups r)\<rparr>)"

text \<open>
  \<^verbatim>\<open>get_group_details\<close> (lines 191-203): whatever goes wrong, the answer is the empty dict.
\<close>

definition get_group_details :: "graph_api \<Rightarrow> pyval \<Rightarrow> string \<Rightarrow> pyval" where
  "get_group_details api group_id token =
     (case group_get api group_id token of
        Inl e \<Rightarrow> PDict []
      | Inr response \<Rightarrow>
          (case raise_for_status response of
             Inl e \<Rightarrow> PDict []
           | Inr u \<Rightarrow> (case json response of Inl e \<Rightarrow> PDict [] | Inr v \<Rightarrow> v)))"

text \<open>Lines 149-153 of \<^verbatim>\<open>process_granted_entity\<close>: the \<^verbatim>\<open>user\<close> part.\<close>

definition process_user :: "pyval \<Rightarrow> result \<Rightarrow> exn + result" where
  "process_user entity r =
     (case py_get entity ''user'' (PDict []) of
        Inl e \<Rightarrow> Inl e
      | Inr user \<Rightarrow>
          if truthy user then
            (case py_get user ''email'' (PStr []) of
               Inl e \<Rightarrow> Inl e
             | Inr v \<Rightarrow>
                 (case str_of v of
                    Inl e \<Rightarrow> Inl e
                  | Inr s \<Rightarrow>
                      (let email = py_strip (py_lower s)
                       in if email \<noteq> [] \<and> email \<notin> set (users r)
                          then Inr (r\<lparr>users := users r @ [email]\<rparr>)
                          else Inr r)))
          else Inr r)"

text \<open>Lines 155-166: the \<^verbatim>\<open>siteGroup\<close> part.\<close>

definition process_site_group :: "pyval \<Rightarrow> result \<Rightarrow> exn + result" where
  "process_site_group entity r =
     (case py_get entity ''siteGroup'' (PDict []) of
        Inl e \<Rightarrow> Inl e
      | Inr site_group \<Rightarrow>
          if truthy site_group then
            (case (py_get site_group ''displayName'' (PStr []),
                   py_get site_group ''id'' (PStr []),
                   py_get site_group ''loginName'' (PStr [])) of
               (Inr group_display_name, Inr group_id, Inr group_login_name) \<Rightarrow>
                 if truthy group_display_name then add_group group_display_name r
                 else if truthy group_login_name then add_group group_login_name r
                 else if truthy group_id then add_group group_id r
                 else Inr r
             | _ \<Rightarrow> Inl AttributeError)
          else Inr r)"

text \<open>Lines 168-184: the \<^verbatim>\<open>group\<close> part, with the directory lookup of its address.\<close>

definition resolve_group_email :: "graph_api \<Rightarrow> string \<Rightarrow> pyval \<Rightarrow> pyval \<Rightarrow> exn + pyval" where
  "resolve_group_email api token group_id group_email =
     (if truthy group_id \<and> \<not> truthy group_email then
        (let group_details = get_group_details api group_id token
         in if truthy group_details then
              (case (py_get group_details ''mail'' (PStr []),
                     py_get group_details ''userPrincipalName'' (PStr [])) of
                 (Inr mail, Inr upn) \<Rightarrow> Inr (py_or mail upn)
               | _ \<Rightarrow> Inl AttributeError)
            else Inr group_email)
      else Inr group_email)"

definition process_group :: "graph_api \<Rightarrow> string \<Rightarrow> pyval \<Rightarrow> result \<Rightarrow> exn + result" where
  "process_group api token entity r =
     (case py_get entity ''group'' (PDict []) of
        Inl e \<Rightarrow> Inl e
      | Inr grp \<Rightarrow>
          if truthy grp then
            (case (py_get grp ''id'' (PStr []),
                   py_get grp ''email'' (PStr []),
                   py_get grp ''displayName'' (PStr [])) of
               (Inr group_id, Inr group_email0, Inr group_display_name) \<Rightarrow>
                 (case resolve_group_email api token group_id group_email0 of
                    Inl e \<Rightarrow> Inl e
                  | Inr group_email \<Rightarrow>
                      if truthy group_email then
                        (case str_of group_email of
                           Inl e \<Rightarrow> Inl e
                         | Inr s \<Rightarrow> add_group (PStr (py_strip (py_lower s))) r)
                      else if truthy group_display_name then add_group group_display_name r
                      else if truthy group_id then add_group group_id r
                      else Inr r)
             | _ \<Rightarrow> Inl AttributeError)
          else Inr r)"

text \<open>Lines 186-189: the \<^verbatim>\<open>application\<close> part reads two fields and keeps nothing.\<close>

definition process_application :: "pyval \<Rightarrow> result \<Rightarrow> exn + result" where
  "process_application entity r =
     (case py_get entity ''application'' (PDict []) of
        Inl e \<Rightarrow> Inl e
      | Inr app \<Rightarrow>
          if truthy app then
            (case py_get app ''id'' (PStr []) of Inl e \<Rightarrow> Inl e | Inr app_id \<Rightarrow> Inr r)
          else Inr r)"

definition process_granted_entity ::
  "graph_api \<Rightarrow> string \<Rightarrow> pyval \<Rightarrow> result \<Rightarrow> exn + result" where
  "process_granted_entity api token entity =
     seq (process_user entity)
       (seq (process_site_group entity)
          (seq (process_group api token entity)
             (process_application entity)))"

fun process_identities ::
  "graph_api \<Rightarrow> string \<Rightarrow> pyval list \<Rightarrow> result \<Rightarrow> exn + result" where
  "process_identities api token [] = Inr"
| "process_identities api token (identity # rest) =
     seq (process_granted_entity api token identity) (process_identities api token rest)"

text \<open>Lines 112-128 of \<^verbatim>\<open>process_permission_entry\<close>: the sharing link.\<close>

definition process_link :: "pyval \<Rightarrow> result \<Rightarrow> exn + result" where
  "process_link permission r =
     (case py_get permission ''link'' (PDict []) of
        Inl e \<Rightarrow> Inl e
      | Inr link \<Rightarrow>
          if truthy link then
            (case (py_get link ''scope'' (PStr []), py_get link ''type'' (PStr []),
                   py_get link ''webUrl'' (PStr []), py_get link ''application'' PNone) of
               (Inr sc, Inr ty, Inr url, Inr app) \<Rightarrow>
                 (case (if truthy app then py_get app ''id'' (PStr []) else Inr (PStr [])) of
                    Inl e \<Rightarrow> Inl e
                  | Inr app_id \<Rightarrow>
                      (let r' = r\<lparr>sharing_links := sharing_links r @
                                    [\<lparr>link_type = ty, scope = sc, webUrl = url,
                                      application = app_id\<rparr>]\<rparr>
                       in if sc = PStr ''anonymous'' then Inr (r'\<lparr>access_level := ''public''\<rparr>)
                          else if sc = PStr ''organization''
                          then Inr (r'\<lparr>access_level := ''organization''\<rparr>)
                          else Inr r'))
             | _ \<Rightarrow> Inl AttributeError)
          else Inr r)"

definition process_granted ::
  "graph_api \<Rightarrow> string \<Rightarrow> string \<Rightarrow> pyval \<Rightarrow> result \<Rightarrow> exn + result" where
  "process_granted api token key permission r =
     (case py_get permission key (PDict []) of
        Inl e \<Rightarrow> Inl e
      | Inr granted \<Rightarrow>
          if truthy granted then process_granted_entity api token granted r else Inr r)"

text \<open>Lines 138-140: \<^verbatim>\<open>grantedToIdentities\<close>, iterated.\<close>

definition process_granted_identities ::
  "graph_api \<Rightarrow> string \<Rightarrow> pyval \<Rightarrow> result \<Rightarrow> exn + result" where
  "process_granted_identities api token permission r =
     (case py_get permission ''grantedToIdentities'' (PList []) of
        Inl e \<Rightarrow> Inl e
      | Inr granted_to_identities \<Rightarrow>
          (case py_iter granted_to_identities of
             Inl e \<Rightarrow> Inl e
           | Inr identities \<Rightarrow> process_identities api token identities r))"

text \<open>Lines 142-143: \<^verbatim>\<open>inheritedFrom\<close>.\<close>

definition process_inherited :: "pyval \<Rightarrow> result \<Rightarrow> exn + result" where
  "process_inherited permission r =
     (case py_get permission ''inheritedFrom'' PNone of
        Inl e \<Rightarrow> Inl e
      | Inr inherited \<Rightarrow>
          if truthy inherited then Inr (r\<lparr>inheritance := True\<rparr>) else Inr r)"

definition process_permission_entry ::
  "graph_api \<Rightarrow> string \<Rightarrow> pyval \<Rightarrow> result \<Rightarrow> exn + result" where
  "process_permission_entry api token permission =
     seq (process_link permission)
       (seq (process_granted api token ''grantedToV2'' permission)
          (seq (process_granted api token ''grantedTo'' permission)
             (seq (process_granted_identities api token permission)
                (process_inherited permission))))"

text \<open>Lines 85-86: the loop over the entries.\<close>

fun process_entries ::
  "graph_api \<Rightarrow> string \<Rightarrow> pyval list \<Rightarrow> result \<Rightarrow> exn + result" where
  "process_entries api token [] = Inr"
| "process_entries api token (permission # rest) =
     seq (process_permission_entry api token permission) (process_entries api token rest)"

text \<open>Lines 91-97: the second pass over the links that were recorded.\<close>

fun escalate_links :: "sharing_link list \<Rightarrow> string \<Rightarrow> string" where
  "escalate_links [] level = level"
| "escalate_links (link # links) level =
     (if scope link = PStr ''anonymous'' then ''public''
      else if scope link = PStr ''organization'' \<and> level \<noteq> ''public''
      then escalate_links links ''organization''
      else escalate_links links level)"

text \<open>
  Lines 76-101, given the value \<open>permissions\<close> found under \<^verbatim>\<open>"value"\<close>: the contract
  \<^verbatim>\<open>aggregate(raw_permission_entries)\<close> of the specification.
\<close>

definition initial_result :: result where
  "initial_result =
     \<lparr>users = [], groups = [], access_level = ''private'', inheritance = False,
      sharing_links = []\<rparr>"

definition aggregate :: "graph_api \<Rightarrow> string \<Rightarrow> pyval \<Rightarrow> exn + result" where
  "aggregate api token permissions =
     (case py_iter permissions of
        Inl e \<Rightarrow> Inl e
      | Inr entries \<Rightarrow>
          (case process_entries api token entries initial_result of
             Inl e \<Rightarrow> Inl e
           | Inr r \<Rightarrow>
               (let level = escalate_links (sharing_links r) (access_level r);
                    level' = (if (users r \<noteq> [] \<or> groups r \<noteq> []) \<and> level = ''private''
                              then ''restricted'' else level)
                in Inr (r\<lparr>access_level := level'\<rparr>))))"

text \<open>Lines 71-74: the fetch.\<close>

definition fetch_permissions :: "graph_api \<Rightarrow> string \<Rightarrow> string \<Rightarrow> string \<Rightarrow> exn + pyval" where
  "fetch_permissions api token doc_id drive_id =
     (case requests_get api
             (''https://graph.microsoft.com/v1.0/drives/'' @ drive_id @ ''/items/'' @ doc_id
                @ ''/permissions'') token of
        Inl e \<Rightarrow> Inl e
      | Inr response \<Rightarrow>
          (case raise_for_status response of
             Inl e \<Rightarrow> Inl e
           | Inr u \<Rightarrow>
               (case json response of
                  Inl e \<Rightarrow> Inl e
                | Inr permissions_data \<Rightarrow> py_get permissions_data ''value'' (PList []))))"

definition error_permissions :: "exn \<Rightarrow> permissions" where
  "error_permissions e =
     \<lparr>p_users = [], p_groups = [], p_access_level = ''private'', p_inheritance = None,
      p_sharing_links = None, p_raw_permissions = None, p_error = Some e\<rparr>"

text \<open>
  \<^verbatim>\<open>get_document_permissions\<close> (lines 62-106). The token is acquired at line 66, before
  the \<^verbatim>\<open>try\<close> opens at line 70: its exception is not caught.
\<close>

definition get_document_permissions :: "graph_api \<Rightarrow> string \<Rightarrow> string \<Rightarrow> exn + permissions" where
  "get_document_permissions sharepoint_service doc_id drive_id =
     (case get_access_token sharepoint_service of
        Inl e \<Rightarrow> Inl e
      | Inr token \<Rightarrow>
          (case fetch_permissions sharepoint_service token doc_id drive_id of
             Inl e \<Rightarrow> Inr (error_permissions e)
           | Inr permissions \<Rightarrow>
               (case aggregate sharepoint_service token permissions of
                  Inl e \<Rightarrow> Inr (error_permissions e)
                | Inr r \<Rightarrow>
                    Inr \<lparr>p_users = users r, p_groups = groups r,
                         p_access_level = access_level r,
                         p_inheritance = Some (inheritance r),
                         p_sharing_links = Some (sharing_links r),
                         p_raw_permissions = Some permissions,
                         p_error = None\<rparr>)))"

section \<open>Access decision and filtered retrieval (\<^verbatim>\<open>app/services/agent.py\<close>)\<close>

record document =
  page_content :: string
  metadata :: "string \<rightharpoonup> pyval"

text \<open>
  Lines 211-215 and 222-226: a string is decoded as JSON after every apostrophe has been
  turned into a double quote; when the decoder raises, the string becomes a list of one.
\<close>

definition normalize_quotes :: "string \<Rightarrow> string" where
  "normalize_quotes s = map (\<lambda>c. if c = CHR 0x27 then CHR 0x22 else c) s"

fun parse_authorized :: "pyval \<Rightarrow> exn + pyval" where
  "parse_authorized (PStr s) =
     (case json_loads (normalize_quotes s) of
        Inr v \<Rightarrow> Inr v
      | Inl Unmodelled \<Rightarrow> Inl Unmodelled
      | Inl e \<Rightarrow> Inr (PList [PStr s]))"
| "parse_authorized v = Inr v"

text \<open>Line 217: \<^verbatim>\<open>[u.lower() for u in authorized_users if isinstance(u, str)]\<close>.\<close>

fun lower_strings :: "pyval list \<Rightarrow> string list" where
  "lower_strings [] = []"
| "lower_strings (PStr u # us) = py_lower u # lower_strings us"
| "lower_strings (u # us) = lower_strings us"

definition md_get :: "document \<Rightarrow> string \<Rightarrow> pyval \<Rightarrow> pyval" where
  "md_get doc k d = (case metadata doc k of None \<Rightarrow> d | Some v \<Rightarrow> v)"

definition has_document_access ::
  "settings \<Rightarrow> document \<Rightarrow> string \<Rightarrow> graph_api option \<Rightarrow> exn + bool" where
  "has_document_access settings doc user_email sharepoint_service =
     (if user_email = [] then Inr False
      else if metadata doc ''authorized_users'' = None
              \<and> metadata doc ''authorized_groups'' = None
              \<and> metadata doc ''access_level'' = None then Inr False
      else
        (let access_level = md_get doc ''access_level'' (PStr ''private'')
         in if access_level = PStr ''public'' then Inr True
            else if access_level = PStr ''organization''
            then Inr (user_domain user_email \<in> set (get_org_domains settings))
            else
              (case parse_authorized (md_get doc ''authorized_users'' (PList [])) of
                 Inl e \<Rightarrow> Inl e
               | Inr authorized_users \<Rightarrow>
                   (case py_iter authorized_users of
                      Inl e \<Rightarrow> Inl e
                    | Inr us \<Rightarrow>
                        if py_lower user_email \<in> set (lower_strings us) then Inr True
                        else
                          (case parse_authorized (md_get doc ''authorized_groups'' (PList [])) of
                             Inl e \<Rightarrow> Inl e
                           | Inr authorized_groups \<Rightarrow>
                               (case sharepoint_service of
                                  Some service \<Rightarrow>
                                    if truthy authorized_groups
                                    then Inr (check_user_group_membership settings user_email
                                                authorized_groups service)
                                    else Inr False
                                | None \<Rightarrow> Inr False))))))"

text \<open>
  One entry of the tool's answer (lines 173-183), before \<^verbatim>\<open>json.dumps\<close> renders the list.
  \<open>py_str\<close> is Python's \<^verbatim>\<open>str\<close> on metadata values; scores are opaque.
\<close>

record 'sc search_result =
  r_page_content :: string
  r_metadata :: "string \<rightharpoonup> string"
  r_source :: pyval
  r_webUrl :: pyval
  r_docId :: pyval
  r_score :: 'sc

definition serializable_doc ::
  "(pyval \<Rightarrow> string) \<Rightarrow> document \<times> 'sc \<Rightarrow> 'sc search_result" where
  "serializable_doc py_str ds =
     (case ds of (doc, score) \<Rightarrow>
        \<lparr>r_page_content = page_content doc,
         r_metadata = (\<lambda>k. if k \<in> set [''authorized_users'', ''authorized_groups'']
                             then None else map_option py_str (metadata doc k)),
         r_source = md_get doc ''documentName'' (PStr ''Unknown Document''),
         r_webUrl = md_get doc ''webUrl'' (PStr ''Unknown URL''),
         r_docId = md_get doc ''documentId'' (PStr ''Unknown ID''),
         r_score = score\<rparr>)"

text \<open>
  Lines 157-162: the loop over the candidates. An exception of the access decision
  leaves the loop (and is caught at line 168).
\<close>

fun filter_results ::
  "settings \<Rightarrow> graph_api \<Rightarrow> string \<Rightarrow> int \<Rightarrow> (document \<times> 'sc) list \<Rightarrow>
   (document \<times> 'sc) list \<Rightarrow> exn + (document \<times> 'sc) list" where
  "filter_results settings service user_email n [] filtered_results = Inr filtered_results"
| "filter_results settings service user_email n ((doc, score) # rest) filtered_results =
     (case has_document_access settings doc user_email (Some service) of
        Inl e \<Rightarrow> Inl e
      | Inr allowed \<Rightarrow>
          if allowed then
            (if n \<le> int (length (filtered_results @ [(doc, score)]))
             then Inr (filtered_results @ [(doc, score)])
             else filter_results settings service user_email n rest
                    (filtered_results @ [(doc, score)]))
          else filter_results settings service user_email n rest filtered_results)"

text \<open>\<^verbatim>\<open>results[:n]\<close> for any integer \<open>n\<close>: a negative \<open>n\<close> counts from the end.\<close>

definition py_slice_to :: "int \<Rightarrow> 'a list \<Rightarrow> 'a list" where
  "py_slice_to n xs = (if 0 \<le> n then take (nat n) xs else take (nat (int (length xs) + n)) xs)"

text \<open>
  \<^verbatim>\<open>document_search_tool\<close> (lines 131-186). \<open>user_context\<close> is \<open>None\<close> for a missing or
  empty context; \<open>similarity_search_with_score\<close> is the vector store. The result is the
  list that line 186 serialises. An exception between lines 154 and 166 yields the empty
  list.
\<close>

definition document_search_tool ::
  "settings \<Rightarrow> graph_api \<Rightarrow> (string \<Rightarrow> int \<Rightarrow> exn + (document \<times> 'sc) list) \<Rightarrow>
   (pyval \<Rightarrow> string) \<Rightarrow> user_info option \<Rightarrow> string \<Rightarrow> int \<Rightarrow> exn + 'sc search_result list" where
  "document_search_tool settings service similarity_search_with_score py_str user_context query n =
     (let user_email = (case user_context of None \<Rightarrow> [] | Some u \<Rightarrow> email u);
          dev = (case user_context of None \<Rightarrow> False | Some u \<Rightarrow> dev_mode u);
          selected =
            (case similarity_search_with_score query (n * 3) of
               Inl e \<Rightarrow> Inl e
             | Inr results \<Rightarrow>
                 if user_email \<noteq> [] \<and> \<not> dev
                 then filter_results settings service user_email n results []
                 else Inr (py_slice_to n results))
      in case selected of
           Inl Unmodelled \<Rightarrow> Inl Unmodelled
         | Inl e \<Rightarrow> Inr []
         | Inr results \<Rightarrow> Inr (map (serializable_doc py_str) results))"

section \<open>The specification's wording, and example inputs\<close>

text \<open>
  Definitions that follow the words of the specification rather than the code, for
  comparison with the code's own.

  \<open>after_at\<close>: "the substring after \<^verbatim>\<open>@\<close>", read as everything after the first \<^verbatim>\<open>@\<close>.
  \<open>domain_segment\<close>: the text between the first \<^verbatim>\<open>@\<close> and the next one (or the end).
  \<open>matches_user\<close>: some entry is a string equal to the user's e-mail up to case.
\<close>

definition after_at :: "string \<Rightarrow> string" where
  "after_at user_email = tl (dropWhile (\<lambda>x. x \<noteq> CHR ''@'') user_email)"

definition domain_segment :: "string \<Rightarrow> string" where
  "domain_segment user_email =
     takeWhile (\<lambda>x. x \<noteq> CHR ''@'') (tl (dropWhile (\<lambda>x. x \<noteq> CHR ''@'') user_email))"

definition matches_user :: "string \<Rightarrow> pyval list \<Rightarrow> bool" where
  "matches_user user_email entries =
     (\<exists>entry \<in> set entries.
        case entry of PStr u \<Rightarrow> py_lower u = py_lower user_email | _ \<Rightarrow> False)"


definition directory_consulted :: "settings \<Rightarrow> string \<Rightarrow> pyval \<Rightarrow> pyval list \<Rightarrow> bool" where
  "directory_consulted settings user_email candidate_groups azure_ad_groups =
     (case py_iter candidate_groups of
        Inl e \<Rightarrow> False
      | Inr gs \<Rightarrow>
          \<not> (user_domain user_email \<in> set (get_org_domains settings)
               \<and> (\<exists>g \<in> set gs. g \<in> set sharepoint_site_groups))
          \<and> filter_azure_ad_groups gs = Inr azure_ad_groups
          \<and> azure_ad_groups \<noteq> [])"







text \<open>
  \<open>link_scope\<close>: the scope of the sharing link that a raw permission entry carries.
  \<open>has_scope\<close>: some recorded link has the scope.
  \<open>level_of\<close>: the classification of the specification: public over organization over
  restricted over private.
\<close>

fun link_scope :: "pyval \<Rightarrow> pyval option" where
  "link_scope (PDict kvs) =
     (case map_of kvs ''link'' of
        Some (PDict link) \<Rightarrow> map_of link ''scope''
      | _ \<Rightarrow> None)"
| "link_scope _ = None"

definition has_scope :: "string \<Rightarrow> sharing_link list \<Rightarrow> bool" where
  "has_scope s links = (\<exists>link \<in> set links. scope link = PStr s)"

definition level_of :: "bool \<Rightarrow> bool \<Rightarrow> bool \<Rightarrow> string" where
  "level_of anonymous organization granted =
     (if anonymous then ''public''
      else if organization then ''organization''
      else if granted then ''restricted''
      else ''private'')"

text \<open>Example inputs for the concrete evaluations below.\<close>

definition doc_of :: "(string \<times> pyval) list \<Rightarrow> document" where
  "doc_of kvs = \<lparr>page_content = ''text'', metadata = map_of kvs\<rparr>"

definition no_network :: graph_api where
  "no_network =
     \<lparr>get_access_token = Inl (External ''ClientAuthenticationError''),
      requests_get = (\<lambda>url token. Inl (External ''ConnectionError'')),
      group_get = (\<lambda>g token. Inl (External ''ConnectionError''))\<rparr>"

definition acme :: settings where
  "acme = \<lparr>DEV_MODE = False, ORG_DOMAINS = ''acme.com, Acme.onmicrosoft.com''\<rparr>"

definition bob :: user_info where
  "bob = \<lparr>email = ''bob@acme.com'', name = PStr ''Bob'', is_authenticated = True, dev_mode = False\<rparr>"

definition render :: "pyval \<Rightarrow> string" where
  "render v = (case v of PStr s \<Rightarrow> s | _ \<Rightarrow> ''?'')"

definition doc_public :: document where
  "doc_public = doc_of [(''documentName'', PStr ''handbook.pdf''), (''access_level'', PStr ''public''),
                        (''authorized_users'', PList []), (''authorized_groups'', PList [])]"

definition doc_private :: document where
  "doc_private = doc_of [(''documentName'', PStr ''salaries.xlsx''), (''access_level'', PStr ''private''),
                         (''authorized_users'', PList [PStr ''carol@acme.com'']),
                         (''authorized_groups'', PList [])]"

definition doc_restricted :: document where
  "doc_restricted = doc_of [(''documentName'', PStr ''plan.docx''), (''access_level'', PStr ''restricted''),
                            (''authorized_users'', PList [PStr ''Bob@Acme.com'']),
                            (''authorized_groups'', PList [])]"

definition doc_null_users :: document where
  "doc_null_users = doc_of [(''documentName'', PStr ''legacy.txt''), (''access_level'', PStr ''private''),
                            (''authorized_users'', PNone)]"

definition pool :: "(document \<times> nat) list" where
  "pool = [(doc_public, 93), (doc_private, 90), (doc_restricted, 71), (doc_public, 60)]"

definition not_found :: graph_api where
  "not_found =
     \<lparr>get_access_token = Inr ''token'',
      requests_get = (\<lambda>url token. Inr \<lparr>status_code = 404, json = Inl JSONDecodeError\<rparr>),
      group_get = (\<lambda>g token. Inr \<lparr>status_code = 404, json = Inl JSONDecodeError\<rparr>)\<rparr>"


definition graph_with :: "pyval \<Rightarrow> graph_api" where
  "graph_with permissions =
     \<lparr>get_access_token = Inr ''token'',
      requests_get = (\<lambda>url token.
         Inr \<lparr>status_code = 200, json = Inr (PDict [(''value'', permissions)])\<rparr>),
      group_get = (\<lambda>g token.
         if g = PStr ''g-42''
         then Inr \<lparr>status_code = 200, json = Inr (PDict [(''mail'', PStr ''Team@Acme.com'')])\<rparr>
         else Inl (External ''ConnectionError''))\<rparr>"

definition entry_anonymous :: pyval where
  "entry_anonymous =
     PDict [(''link'', PDict [(''scope'', PStr ''anonymous''), (''type'', PStr ''view'')])]"

definition entry_organization :: pyval where
  "entry_organization =
     PDict [(''link'', PDict [(''scope'', PStr ''organization''), (''type'', PStr ''edit''),
                              (''webUrl'', PStr ''https://example.com/link'')]),
            (''grantedToV2'', PDict [(''user'', PDict [(''email'', PStr '' User1@Company.com '')])])]"

definition entry_group :: pyval where
  "entry_group =
     PDict [(''grantedToIdentities'',
               PList [PDict [(''group'', PDict [(''id'', PStr ''g-42''),
                                                (''displayName'', PStr ''Team'')])],
                      PDict [(''siteGroup'', PDict [(''displayName'', PStr ''demo Owners'')])]]),
            (''inheritedFrom'', PDict [(''id'', PStr ''parent-folder'')])]"

definition entry_null_email :: pyval where
  "entry_null_email =
     PDict [(''grantedToV2'',
               PDict [(''user'', PDict [(''displayName'', PStr ''Eve''), (''email'', PNone)])])]"

definition perms_example :: permissions where
  "perms_example =
     \<lparr>p_users = [''user1@company.com''],
      p_groups = [PStr ''demo Owners'', PStr ''team@acme.com''],
      p_access_level = ''public'', p_inheritance = Some True,
      p_sharing_links =
        Some [\<lparr>link_type = PStr ''edit'', scope = PStr ''organization'',
               webUrl = PStr ''https://example.com/link'', application = PStr []\<rparr>,
              \<lparr>link_type = PStr ''view'', scope = PStr ''anonymous'',
               webUrl = PStr [], application = PStr []\<rparr>],
      p_raw_permissions = Some (PList [entry_organization, entry_anonymous, entry_group]),
      p_error = None\<rparr>"

section \<open>Notions used in the proofs\<close>



text \<open>
  \<open>level_after links level\<close>: the access level that the first pass (lines 125-128) leaves
  after recording \<open>links\<close>, from \<open>level\<close>. \<open>adds r d r'\<close>: \<open>r'\<close> is \<open>r\<close> extended by what
  \<open>d\<close> holds. \<open>uniform f\<close>: what \<open>f\<close> adds to a result, and whether it raises, does not
  depend on the result it starts from; \<open>entry_delta\<close> is what one entry adds.
\<close>

fun level_after :: "sharing_link list \<Rightarrow> string \<Rightarrow> string" where
  "level_after [] level = level"
| "level_after (link # links) level =
     level_after links
       (if scope link = PStr ''anonymous'' then ''public''
        else if scope link = PStr ''organization'' then ''organization''
        else level)"

definition adds :: "result \<Rightarrow> result \<Rightarrow> result \<Rightarrow> bool" where
  "adds r d r' =
     (set (users r') = set (users r) \<union> set (users d)
      \<and> set (groups r') = set (groups r) \<union> set (groups d)
      \<and> sharing_links r' = sharing_links r @ sharing_links d
      \<and> inheritance r' = (inheritance r \<or> inheritance d)
      \<and> access_level r' = level_after (sharing_links d) (access_level r))"

definition uniform :: "(result \<Rightarrow> exn + result) \<Rightarrow> bool" where
  "uniform f =
     (\<forall>r. case f initial_result of
            Inl e \<Rightarrow> (\<exists>e'. f r = Inl e')
          | Inr d \<Rightarrow> (\<exists>r'. f r = Inr r' \<and> adds r d r'))"

definition entry_delta :: "graph_api \<Rightarrow> string \<Rightarrow> pyval \<Rightarrow> exn + result" where
  "entry_delta api token permission = process_permission_entry api token permission initial_result"

definition delta_users :: "exn + result \<Rightarrow> string set" where
  "delta_users x = (case x of Inl e \<Rightarrow> {} | Inr d \<Rightarrow> set (users d))"

definition delta_groups :: "exn + result \<Rightarrow> pyval set" where
  "delta_groups x = (case x of Inl e \<Rightarrow> {} | Inr d \<Rightarrow> set (groups d))"

definition delta_links :: "exn + result \<Rightarrow> sharing_link list" where
  "delta_links x = (case x of Inl e \<Rightarrow> [] | Inr d \<Rightarrow> sharing_links d)"

definition delta_inherited :: "exn + result \<Rightarrow> bool" where
  "delta_inherited x = (case x of Inl e \<Rightarrow> False | Inr d \<Rightarrow> inheritance d)"

section \<open>Verified properties\<close>

subsection \<open>Strings\<close>

lemma py_split_nonempty: "py_split c s \<noteq> []"
  by (induction s) (auto split: list.splits)

lemma py_split_unfold:
  "py_split c s = takeWhile (\<lambda>x. x \<noteq> c) s #
     (if c \<in> set s then py_split c (tl (dropWhile (\<lambda>x. x \<noteq> c) s)) else [])"
  by (induction s) (auto split: list.splits)

lemma py_split_hd: "hd (py_split c s) = takeWhile (\<lambda>x. x \<noteq> c) s"
  by (subst py_split_unfold) simp

lemma py_split_length: "length (py_split c s) = Suc (count_list s c)"
  by (induction s) (auto split: list.splits)

text \<open>The code's \<open>user_domain\<close> is the lower-cased \<open>domain_segment\<close>.\<close>

lemma user_domain_segment: "user_domain user_email = py_lower (domain_segment user_email)"
proof (cases "CHR ''@'' \<in> set user_email")
  case True
  then have "py_split (CHR ''@'') user_email ! 1 =
             hd (py_split (CHR ''@'') (tl (dropWhile (\<lambda>x. x \<noteq> CHR ''@'') user_email)))"
    by (subst py_split_unfold) (simp add: hd_conv_nth py_split_nonempty)
  with True show ?thesis by (simp add: user_domain_def domain_segment_def py_split_hd)
next
  case False
  then have "dropWhile (\<lambda>x. x \<noteq> CHR ''@'') user_email = []"
    by (subst dropWhile_eq_Nil_conv) blast
  with False show ?thesis
    by (simp add: user_domain_def domain_segment_def py_lower_def del: dropWhile_eq_Nil_conv)
qed

subsection \<open>Authentication\<close>

text \<open>
  C9. Whenever \<^verbatim>\<open>get_current_user\<close> returns a user context, its \<open>dev_mode\<close> flag is
  true exactly when the deployment-level \<open>DEV_MODE\<close> setting is true and the request
  carries an \<^verbatim>\<open>X-Dev-Mode\<close> header equal to "true" up to case; with either gate
  missing the flag is false.
\<close>

theorem dev_mode_double_gate:
  assumes "get_current_user settings validate_sharepoint_token request credentials = Inr u"
  shows "dev_mode u =
           (DEV_MODE settings \<and>
            (\<exists>h. headers request ''X-Dev-Mode'' = Some h \<and> py_lower h = ''true''))"
proof -
  have gate: "(py_lower (header_or request ''X-Dev-Mode'' []) = ''true'') =
              (\<exists>h. headers request ''X-Dev-Mode'' = Some h \<and> py_lower h = ''true'')"
    by (cases "headers request ''X-Dev-Mode''") (simp_all add: header_or_def py_lower_def)
  show ?thesis
  proof (cases "DEV_MODE settings \<and> py_lower (header_or request ''X-Dev-Mode'' []) = ''true''")
    case True
    with assms have "dev_mode u = True"
      by (auto simp: get_current_user_def Let_def split: if_splits)
    with True gate show ?thesis by simp
  next
    case False
    with assms have "dev_mode u = False"
      by (auto simp: get_current_user_def Let_def
               split: if_splits sum.splits option.splits prod.splits)
    with False gate show ?thesis by auto
  qed
qed

theorem dev_mode_double_gate_witness:
  "get_current_user \<lparr>DEV_MODE = True, ORG_DOMAINS = ''acme.com''\<rparr>
       (\<lambda>t. Inl (External ''jwt''))
       \<lparr>headers = [''X-Dev-Mode'' \<mapsto> ''TRUE'', ''X-User-Email'' \<mapsto> ''dev@acme.com'']\<rparr> None
     = Inr \<lparr>email = ''dev@acme.com'', name = PStr ''Developer'',
             is_authenticated = True, dev_mode = True\<rparr>
   \<and> dev_mode \<lparr>email = ''dev@acme.com'', name = PStr ''Developer'',
                 is_authenticated = True, dev_mode = True\<rparr>
       = (DEV_MODE \<lparr>DEV_MODE = True, ORG_DOMAINS = ''acme.com''\<rparr> \<and>
          (\<exists>h. headers \<lparr>headers = [''X-Dev-Mode'' \<mapsto> ''TRUE'',
                                     ''X-User-Email'' \<mapsto> ''dev@acme.com'']\<rparr> ''X-Dev-Mode'' = Some h
               \<and> py_lower h = ''true''))"
proof -
  have run: "get_current_user \<lparr>DEV_MODE = True, ORG_DOMAINS = ''acme.com''\<rparr>
       (\<lambda>t. Inl (External ''jwt''))
       \<lparr>headers = [''X-Dev-Mode'' \<mapsto> ''TRUE'', ''X-User-Email'' \<mapsto> ''dev@acme.com'']\<rparr> None
     = Inr \<lparr>email = ''dev@acme.com'', name = PStr ''Developer'',
             is_authenticated = True, dev_mode = True\<rparr>"
    by code_simp
  from dev_mode_double_gate [OF run] run show ?thesis by blast
qed

subsection \<open>The access decision\<close>

lemma lower_strings_set: "set (lower_strings us) = {py_lower u | u. PStr u \<in> set us}"
  by (induction us rule: lower_strings.induct) auto

lemma lower_strings_matches:
  "(py_lower user_email \<in> set (lower_strings us)) = matches_user user_email us"
  by (induction us rule: lower_strings.induct) (auto simp: matches_user_def)

text \<open>
  C4. A document whose metadata has none of the keys \<^verbatim>\<open>authorized_users\<close>,
  \<^verbatim>\<open>authorized_groups\<close> and \<^verbatim>\<open>access_level\<close> is denied to every user e-mail.
\<close>

theorem fail_closed_without_permission_keys:
  assumes "metadata doc ''authorized_users'' = None"
      and "metadata doc ''authorized_groups'' = None"
      and "metadata doc ''access_level'' = None"
  shows "has_document_access settings doc user_email sharepoint_service = Inr False"
  using assms by (simp add: has_document_access_def)

theorem fail_closed_without_permission_keys_witness:
  "has_document_access acme
     (doc_of [(''documentId'', PStr ''doc1''), (''documentName'', PStr ''test.pdf'')])
     ''user@acme.com'' (Some no_network) = Inr False"
  by (rule fail_closed_without_permission_keys) (simp_all add: doc_of_def)

text \<open>
  C1, as amended. For a non-empty user e-mail the decision follows the access level:
  \<^item> \<^verbatim>\<open>public\<close>: true;
  \<^item> \<^verbatim>\<open>organization\<close>: true exactly when the lower-cased text between the first \<^verbatim>\<open>@\<close> of
    the e-mail and its next \<^verbatim>\<open>@\<close> (or its end) is in the allow-list;
  \<^item> anything else (\<^verbatim>\<open>restricted\<close>, \<^verbatim>\<open>private\<close>, absent): \<^verbatim>\<open>authorized_users\<close> is decoded
    when it is a string and iterated, which raises on a value that is not iterable;
    otherwise the answer is true exactly when an entry matches the e-mail up to case, or
    \<^verbatim>\<open>authorized_groups\<close> (decoded likewise) is non-empty and the resolver reports
    membership.
\<close>

theorem access_decision_cases:
  assumes "user_email \<noteq> []"
  shows "has_document_access settings doc user_email (Some service) =
     (let access_level = md_get doc ''access_level'' (PStr ''private'')
      in if access_level = PStr ''public'' then Inr True
         else if access_level = PStr ''organization''
         then Inr (py_lower (domain_segment user_email) \<in> set (get_org_domains settings))
         else
           (case parse_authorized (md_get doc ''authorized_users'' (PList [])) of
              Inl e \<Rightarrow> Inl e
            | Inr authorized_users \<Rightarrow>
                (case py_iter authorized_users of
                   Inl e \<Rightarrow> Inl e
                 | Inr entries \<Rightarrow>
                     if matches_user user_email entries then Inr True
                     else
                       (case parse_authorized (md_get doc ''authorized_groups'' (PList [])) of
                          Inl e \<Rightarrow> Inl e
                        | Inr authorized_groups \<Rightarrow>
                            Inr (truthy authorized_groups \<and>
                                 check_user_group_membership settings user_email
                                   authorized_groups service)))))"
proof (cases "metadata doc ''authorized_users'' = None
            \<and> metadata doc ''authorized_groups'' = None
            \<and> metadata doc ''access_level'' = None")
  case True
  then have "has_document_access settings doc user_email (Some service) = Inr False"
    by (simp add: has_document_access_def)
  moreover from True have "md_get doc ''access_level'' (PStr ''private'') = PStr ''private''"
    "md_get doc ''authorized_users'' (PList []) = PList []"
    "md_get doc ''authorized_groups'' (PList []) = PList []"
    by (simp_all add: md_get_def)
  ultimately show ?thesis by (simp add: matches_user_def)
next
  case False
  then show ?thesis using assms
    by (auto simp: has_document_access_def Let_def lower_strings_matches user_domain_segment
             split: sum.splits)
qed

theorem access_decision_cases_witness:
  "''Bob@Acme.com'' \<noteq> [] \<and>
   has_document_access acme
     (doc_of [(''access_level'', PStr ''restricted''),
              (''authorized_users'', PList [PStr ''alice@acme.com'', PStr ''bob@ACME.com''])])
     ''Bob@Acme.com'' (Some no_network) = Inr True"
proof -
  have ne: "''Bob@Acme.com'' \<noteq> []" by simp
  have rhs: "(let access_level =
                md_get (doc_of [(''access_level'', PStr ''restricted''),
                  (''authorized_users'', PList [PStr ''alice@acme.com'', PStr ''bob@ACME.com''])])
                  ''access_level'' (PStr ''private'')
      in if access_level = PStr ''public'' then Inr True
         else if access_level = PStr ''organization''
         then Inr (py_lower (domain_segment ''Bob@Acme.com'') \<in> set (get_org_domains acme))
         else
           (case parse_authorized (md_get (doc_of [(''access_level'', PStr ''restricted''),
                  (''authorized_users'', PList [PStr ''alice@acme.com'', PStr ''bob@ACME.com''])])
                  ''authorized_users'' (PList [])) of
              Inl e \<Rightarrow> Inl e
            | Inr authorized_users \<Rightarrow>
                (case py_iter authorized_users of
                   Inl e \<Rightarrow> Inl e
                 | Inr entries \<Rightarrow>
                     if matches_user ''Bob@Acme.com'' entries then Inr True
                     else
                       (case parse_authorized (md_get (doc_of [(''access_level'', PStr ''restricted''),
                  (''authorized_users'', PList [PStr ''alice@acme.com'', PStr ''bob@ACME.com''])])
                            ''authorized_groups'' (PList [])) of
                          Inl e \<Rightarrow> Inl e
                        | Inr authorized_groups \<Rightarrow>
                            Inr (truthy authorized_groups \<and>
                                 check_user_group_membership acme ''Bob@Acme.com''
                                   authorized_groups no_network))))) = Inr True"
    by code_simp
  from access_decision_cases [OF ne, of acme _ no_network] rhs ne show ?thesis
    by simp
qed

text \<open>
  The claim as first stated fails at three inputs: a public document with the empty
  e-mail is denied; an e-mail with two \<^verbatim>\<open>@\<close> passes the organization check on its
  middle piece although what follows its first \<^verbatim>\<open>@\<close> is not in the allow-list; and a
  private document whose \<^verbatim>\<open>authorized_users\<close> is null makes the decision raise.
\<close>

theorem access_decision_cases_counterexample:
  "has_document_access acme (doc_of [(''access_level'', PStr ''public'')]) [] (Some no_network)
     = Inr False
   \<and> has_document_access acme (doc_of [(''access_level'', PStr ''organization'')])
       ''eve@acme.com@evil.org'' (Some no_network) = Inr True
   \<and> py_lower (after_at ''eve@acme.com@evil.org'') \<notin> set (get_org_domains acme)
   \<and> has_document_access acme
       (doc_of [(''access_level'', PStr ''private''), (''authorized_users'', PNone)])
       ''a@acme.com'' (Some no_network) = Inl TypeError"
  by code_simp

subsection \<open>Filtered retrieval\<close>

lemma filter_results_subset:
  "filter_results settings service user_email n cands acc = Inr rs \<Longrightarrow>
   set rs \<subseteq> set acc \<union> set cands"
proof (induction cands arbitrary: acc)
  case Nil
  then show ?case by simp
next
  case (Cons c cands)
  obtain d s where c: "c = (d, s)" by (cases c)
  show ?case
  proof (cases "has_document_access settings d user_email (Some service)")
    case (Inl e)
    with Cons.prems show ?thesis unfolding c by simp
  next
    case (Inr b)
    show ?thesis
    proof (cases "b \<and> \<not> n \<le> int (length acc) + 1")
      case True
      with Inr Cons.prems have "filter_results settings service user_email n cands (acc @ [(d, s)]) = Inr rs"
        unfolding c by simp
      from Cons.IH [OF this] show ?thesis unfolding c by auto
    next
      case False
      show ?thesis
      proof (cases b)
        case True
        with False Inr Cons.prems have "rs = acc @ [(d, s)]" unfolding c by simp
        then show ?thesis unfolding c by auto
      next
        case nb: False
        with Inr Cons.prems have "filter_results settings service user_email n cands acc = Inr rs"
          unfolding c by simp
        from Cons.IH [OF this] show ?thesis by auto
      qed
    qed
  qed
qed


lemma py_slice_to_subset: "set (py_slice_to n xs) \<subseteq> set xs"
  by (auto simp: py_slice_to_def dest: in_set_takeD)

lemma serializable_doc_hides:
  "r_metadata (serializable_doc py_str c) ''authorized_users'' = None"
  "r_metadata (serializable_doc py_str c) ''authorized_groups'' = None"
  "r_metadata (serializable_doc py_str c) ''access_level'' =
     map_option py_str (metadata (fst c) ''access_level'')"
  by (cases c; simp add: serializable_doc_def)+

lemma document_search_tool_selected:
  assumes "document_search_tool settings service search py_str user_context query n = Inr rs"
      and "r \<in> set rs"
  shows "\<exists>results c. search query (n * 3) = Inr results \<and> c \<in> set results
           \<and> r = serializable_doc py_str c"
proof (cases "search query (n * 3)")
  case (Inl e)
  with assms show ?thesis
    by (cases e) (simp_all add: document_search_tool_def Let_def)
next
  case (Inr results)
  let ?email = "case user_context of None \<Rightarrow> [] | Some u \<Rightarrow> email u"
  let ?dev = "case user_context of None \<Rightarrow> False | Some u \<Rightarrow> dev_mode u"
  show ?thesis
  proof (cases "?email \<noteq> [] \<and> \<not> ?dev")
    case True
    show ?thesis
    proof (cases "filter_results settings service ?email n results []")
      case (Inl e)
      with True Inr assms show ?thesis
        by (cases e) (simp_all add: document_search_tool_def Let_def)
    next
      case sel: (Inr selected)
      from filter_results_subset [OF sel] have sub: "set selected \<subseteq> set results" by simp
      from True Inr sel assms have "rs = map (serializable_doc py_str) selected"
        by (simp add: document_search_tool_def Let_def)
      with assms(2) sub Inr show ?thesis by auto
    qed
  next
    case False
    with Inr assms have "rs = map (serializable_doc py_str) (py_slice_to n results)"
      by (auto simp add: document_search_tool_def Let_def)
    with assms(2) py_slice_to_subset [of n results] Inr show ?thesis by auto
  qed
qed

lemma access_examples:
  "has_document_access acme doc_public ''bob@acme.com'' (Some no_network) = Inr True"
  "has_document_access acme doc_private ''bob@acme.com'' (Some no_network) = Inr False"
  "has_document_access acme doc_restricted ''bob@acme.com'' (Some no_network) = Inr True"
  "has_document_access acme doc_null_users ''bob@acme.com'' (Some no_network) = Inl TypeError"
  by code_simp+

text \<open>
  C3. Every record the search tool returns exposes a metadata dictionary without the
  keys \<^verbatim>\<open>authorized_users\<close> and \<^verbatim>\<open>authorized_groups\<close>; the record comes from one of the
  candidates of the similarity search, and its \<^verbatim>\<open>access_level\<close> entry is present exactly
  when the candidate has one (as the rendering of that value). This holds whatever the
  user context is, so on the filtered path and on the dev-mode or no-user path alike.
\<close>

theorem exposed_metadata_hides_acl:
  assumes "document_search_tool settings service search py_str user_context query n = Inr rs"
      and "r \<in> set rs"
  shows "''authorized_users'' \<notin> dom (r_metadata r)
       \<and> ''authorized_groups'' \<notin> dom (r_metadata r)
       \<and> (\<exists>results c. search query (n * 3) = Inr results \<and> c \<in> set results
             \<and> r = serializable_doc py_str c
             \<and> r_metadata r ''access_level'' = map_option py_str (metadata (fst c) ''access_level''))"
proof -
  from document_search_tool_selected [OF assms] obtain results c
    where c: "search query (n * 3) = Inr results" "c \<in> set results" "r = serializable_doc py_str c"
    by blast
  have h: "r_metadata r ''authorized_users'' = None" "r_metadata r ''authorized_groups'' = None"
    "r_metadata r ''access_level'' = map_option py_str (metadata (fst c) ''access_level'')"
    unfolding c(3) by (rule serializable_doc_hides)+
  show ?thesis
  proof (intro conjI)
    show "''authorized_users'' \<notin> dom (r_metadata r)" using h(1) by (simp add: domIff)
    show "''authorized_groups'' \<notin> dom (r_metadata r)" using h(2) by (simp add: domIff)
    from c h(3) show "\<exists>results c. search query (n * 3) = Inr results \<and> c \<in> set results
             \<and> r = serializable_doc py_str c
             \<and> r_metadata r ''access_level'' = map_option py_str (metadata (fst c) ''access_level'')"
      by (intro exI [of _ results] exI [of _ c]) (simp del: split_paired_Ex)
  qed
qed

theorem exposed_metadata_hides_acl_witness:
  "document_search_tool acme no_network (\<lambda>query k. Inr pool) render (Some bob) ''budget'' 2
     = Inr (map (serializable_doc render) [(doc_public, 93), (doc_restricted, 71)])
   \<and> ''authorized_users'' \<notin> dom (r_metadata (serializable_doc render (doc_restricted, 71 :: nat)))
   \<and> ''authorized_groups'' \<notin> dom (r_metadata (serializable_doc render (doc_restricted, 71 :: nat)))
   \<and> r_metadata (serializable_doc render (doc_restricted, 71 :: nat)) ''access_level'' = Some ''restricted''"
proof -
  have run: "document_search_tool acme no_network (\<lambda>query k. Inr pool) render (Some bob) ''budget'' 2
     = Inr (map (serializable_doc render) [(doc_public, 93), (doc_restricted, 71)])"
    by (simp add: document_search_tool_def bob_def pool_def access_examples)
  have mem: "serializable_doc render (doc_restricted, 71 :: nat)
               \<in> set (map (serializable_doc render) [(doc_public, 93), (doc_restricted, 71)])"
    by simp
  have lvl: "r_metadata (serializable_doc render (doc_restricted, 71 :: nat)) ''access_level'' = Some ''restricted''"
    by (simp add: serializable_doc_def doc_restricted_def doc_of_def render_def)
  from exposed_metadata_hides_acl [OF run mem] run lvl show ?thesis by blast
qed




subsection \<open>Group membership\<close>

lemma consulted_body:
  assumes "directory_consulted settings user_email candidate_groups azure_ad_groups"
  shows "check_user_group_membership_body settings user_email candidate_groups sharepoint_service =
         directory_lookup sharepoint_service user_email azure_ad_groups"
  using assms
  by (auto simp: directory_consulted_def check_user_group_membership_body_def split: sum.splits)

lemma raised_is_false:
  "check_user_group_membership_body settings user_email candidate_groups sharepoint_service = Inl e \<Longrightarrow>
   check_user_group_membership settings user_email candidate_groups sharepoint_service = False"
  by (simp add: check_user_group_membership_def)

text \<open>
  C6. \<^verbatim>\<open>check_user_group_membership\<close> returns a boolean on every input. Whenever a step
  of its body raises, the answer is \<open>False\<close>; in particular, once the directory is
  consulted, a failure to acquire the token, a failure of the HTTP call, a response that
  cannot be decoded or is no object, and a status other than 200 each give \<open>False\<close>.
\<close>

theorem group_membership_fail_closed:
  "(\<forall>e. check_user_group_membership_body settings user_email candidate_groups service = Inl e \<longrightarrow>
        check_user_group_membership settings user_email candidate_groups service = False)
   \<and> (directory_consulted settings user_email candidate_groups azure_ad_groups \<longrightarrow>
        (\<forall>e. get_access_token service = Inl e \<longrightarrow>
             check_user_group_membership settings user_email candidate_groups service = False)
      \<and> (\<forall>token e. get_access_token service = Inr token
             \<and> requests_get service (member_of_url user_email) token = Inl e \<longrightarrow>
             check_user_group_membership settings user_email candidate_groups service = False)
      \<and> (\<forall>token r. get_access_token service = Inr token
             \<and> requests_get service (member_of_url user_email) token = Inr r
             \<and> status_code r \<noteq> 200 \<longrightarrow>
             check_user_group_membership settings user_email candidate_groups service = False)
      \<and> (\<forall>token r e. get_access_token service = Inr token
             \<and> requests_get service (member_of_url user_email) token = Inr r
             \<and> status_code r = 200 \<and> json r = Inl e \<longrightarrow>
             check_user_group_membership settings user_email candidate_groups service = False)
      \<and> (\<forall>token r body. get_access_token service = Inr token
             \<and> requests_get service (member_of_url user_email) token = Inr r
             \<and> status_code r = 200 \<and> json r = Inr body \<and> (\<forall>kvs. body \<noteq> PDict kvs) \<longrightarrow>
             check_user_group_membership settings user_email candidate_groups service = False))"
proof (intro conjI impI allI)
  fix e
  assume "check_user_group_membership_body settings user_email candidate_groups service = Inl e"
  then show "check_user_group_membership settings user_email candidate_groups service = False"
    by (rule raised_is_false)
next
  fix e
  assume c: "directory_consulted settings user_email candidate_groups azure_ad_groups"
     and "get_access_token service = Inl e"
  then have "directory_lookup service user_email azure_ad_groups = Inl e"
    by (simp add: directory_lookup_def)
  with consulted_body [OF c] show "check_user_group_membership settings user_email candidate_groups service = False"
    by (simp add: check_user_group_membership_def)
next
  fix token e
  assume c: "directory_consulted settings user_email candidate_groups azure_ad_groups"
     and "get_access_token service = Inr token
            \<and> requests_get service (member_of_url user_email) token = Inl e"
  then have "directory_lookup service user_email azure_ad_groups = Inl e"
    by (simp add: directory_lookup_def member_of_url_def)
  with consulted_body [OF c] show "check_user_group_membership settings user_email candidate_groups service = False"
    by (simp add: check_user_group_membership_def)
next
  fix token r
  assume c: "directory_consulted settings user_email candidate_groups azure_ad_groups"
     and "get_access_token service = Inr token
            \<and> requests_get service (member_of_url user_email) token = Inr r
            \<and> status_code r \<noteq> 200"
  then have "directory_lookup service user_email azure_ad_groups = Inr False"
    by (simp add: directory_lookup_def member_of_url_def)
  with consulted_body [OF c] show "check_user_group_membership settings user_email candidate_groups service = False"
    by (simp add: check_user_group_membership_def)
next
  fix token r e
  assume c: "directory_consulted settings user_email candidate_groups azure_ad_groups"
     and "get_access_token service = Inr token
            \<and> requests_get service (member_of_url user_email) token = Inr r
            \<and> status_code r = 200 \<and> json r = Inl e"
  then have "directory_lookup service user_email azure_ad_groups = Inl e"
    by (simp add: directory_lookup_def member_of_url_def)
  with consulted_body [OF c] show "check_user_group_membership settings user_email candidate_groups service = False"
    by (simp add: check_user_group_membership_def)
next
  fix token r body
  assume c: "directory_consulted settings user_email candidate_groups azure_ad_groups"
     and h: "get_access_token service = Inr token
            \<and> requests_get service (member_of_url user_email) token = Inr r
            \<and> status_code r = 200 \<and> json r = Inr body \<and> (\<forall>kvs. body \<noteq> PDict kvs)"
  then have "py_get body ''value'' (PList []) = Inl AttributeError"
    by (cases body) simp_all
  with h have "directory_lookup service user_email azure_ad_groups = Inl AttributeError"
    by (simp add: directory_lookup_def member_of_url_def)
  with consulted_body [OF c] show "check_user_group_membership settings user_email candidate_groups service = False"
    by (simp add: check_user_group_membership_def)
qed

theorem group_membership_fail_closed_witness:
  "directory_consulted acme ''bob@acme.com'' (PList [PStr ''hr-team@acme.com'']) [PStr ''hr-team@acme.com'']
   \<and> get_access_token no_network = Inl (External ''ClientAuthenticationError'')
   \<and> check_user_group_membership acme ''bob@acme.com'' (PList [PStr ''hr-team@acme.com'']) no_network = False
   \<and> status_code \<lparr>status_code = 404, json = Inl JSONDecodeError\<rparr> \<noteq> 200
   \<and> check_user_group_membership acme ''bob@acme.com'' (PList [PStr ''hr-team@acme.com'']) not_found = False"
proof -
  have c: "directory_consulted acme ''bob@acme.com'' (PList [PStr ''hr-team@acme.com'']) [PStr ''hr-team@acme.com'']"
    by code_simp
  have t: "get_access_token no_network = Inl (External ''ClientAuthenticationError'')"
    by (simp add: no_network_def)
  have n: "get_access_token not_found = Inr ''token''
         \<and> requests_get not_found (member_of_url ''bob@acme.com'') ''token''
             = Inr \<lparr>status_code = 404, json = Inl JSONDecodeError\<rparr>
         \<and> status_code \<lparr>status_code = 404, json = Inl JSONDecodeError\<rparr> \<noteq> 200"
    by (simp add: not_found_def)
  from group_membership_fail_closed [of acme "''bob@acme.com''" "PList [PStr ''hr-team@acme.com'']" no_network "[PStr ''hr-team@acme.com'']"] c t
  have 1: "check_user_group_membership acme ''bob@acme.com'' (PList [PStr ''hr-team@acme.com'']) no_network = False"
    by blast
  from group_membership_fail_closed [of acme "''bob@acme.com''" "PList [PStr ''hr-team@acme.com'']" not_found "[PStr ''hr-team@acme.com'']"] c n
  have 2: "check_user_group_membership acme ''bob@acme.com'' (PList [PStr ''hr-team@acme.com'']) not_found = False"
    by blast
  from c t 1 2 show ?thesis by simp
qed

subsection \<open>Decoding a legacy list\<close>

lemma normalize_quotes_append [simp]:
  "normalize_quotes (a @ b) = normalize_quotes a @ normalize_quotes b"
  by (simp add: normalize_quotes_def)

















subsection \<open>Permission aggregation\<close>

lemma level_after_append [simp]:
  "level_after (xs @ ys) level = level_after ys (level_after xs level)"
  by (induction xs arbitrary: level) simp_all

lemma uniform_Inr [simp]: "uniform Inr"
  by (simp add: uniform_def adds_def initial_result_def)

lemma uniform_raise [simp]: "uniform (\<lambda>r. Inl e)"
  by (simp add: uniform_def)

lemma uniformD:
  "uniform f \<Longrightarrow> f initial_result = Inr d \<Longrightarrow> \<exists>r'. f r = Inr r' \<and> adds r d r'"
  unfolding uniform_def by (erule allE [of _ r]) simp

lemma uniformD_raise:
  "uniform f \<Longrightarrow> f initial_result = Inl e \<Longrightarrow> \<exists>e'. f r = Inl e'"
  unfolding uniform_def by (erule allE [of _ r]) simp

lemma uniform_eq: "uniform g \<Longrightarrow> f = g \<Longrightarrow> uniform f"
  by simp

lemma uniform_seq:
  assumes f: "uniform f" and g: "uniform g"
  shows "uniform (seq f g)"
  unfolding uniform_def
proof
  fix r
  show "case seq f g initial_result of
          Inl e \<Rightarrow> \<exists>e'. seq f g r = Inl e'
        | Inr d \<Rightarrow> \<exists>r'. seq f g r = Inr r' \<and> adds r d r'"
  proof (cases "f initial_result")
    case (Inl e)
    with f obtain e' where "f r = Inl e'" using uniformD_raise by blast
    with Inl show ?thesis by (simp add: seq_def)
  next
    case (Inr df)
    with f obtain r1 where r1: "f r = Inr r1" "adds r df r1"
      using uniformD by blast
    show ?thesis
    proof (cases "g initial_result")
      case (Inl e)
      with g obtain e1 e2 where "g df = Inl e1" "g r1 = Inl e2"
        using uniformD_raise by metis
      with Inr r1 show ?thesis by (simp add: seq_def)
    next
      case dg: (Inr dg)
      from uniformD [OF g dg, of df] obtain d2 where d2: "g df = Inr d2" "adds df dg d2"
        by blast
      from uniformD [OF g dg, of r1] obtain r2 where r2: "g r1 = Inr r2" "adds r1 dg r2"
        by blast
      from r1(2) d2(2) r2(2) have "adds r d2 r2" by (auto simp: adds_def)
      with Inr r1 d2 r2 show ?thesis by (simp add: seq_def)
    qed
  qed
qed

lemma uniform_add_group: "uniform (add_group g)"
  by (cases g) (auto simp: uniform_def adds_def initial_result_def)

lemma uniform_if: "uniform f \<Longrightarrow> uniform g \<Longrightarrow> uniform (if b then f else g)"
  by simp

lemma uniform_process_user: "uniform (process_user entity)"
  unfolding uniform_def
  by (auto simp: process_user_def adds_def initial_result_def Let_def split: sum.splits)

lemma uniform_cases:
  assumes "\<And>v. x = Inr v \<Longrightarrow> uniform (g v)"
  shows "uniform (\<lambda>r. case x of Inl e \<Rightarrow> Inl e | Inr v \<Rightarrow> g v r)"
  using assms by (cases x) simp_all

lemma uniform_process_site_group: "uniform (process_site_group entity)"
proof -
  have eq: "process_site_group entity =
    (\<lambda>r. case py_get entity ''siteGroup'' (PDict []) of
        Inl e \<Rightarrow> Inl e
      | Inr site_group \<Rightarrow>
          (if truthy site_group then
            (case (py_get site_group ''displayName'' (PStr []),
                   py_get site_group ''id'' (PStr []),
                   py_get site_group ''loginName'' (PStr [])) of
               (Inr group_display_name, Inr group_id, Inr group_login_name) \<Rightarrow>
                 if truthy group_display_name then add_group group_display_name
                 else if truthy group_login_name then add_group group_login_name
                 else if truthy group_id then add_group group_id
                 else Inr
             | _ \<Rightarrow> (\<lambda>r. Inl AttributeError))
          else Inr) r)"
    by (auto simp: process_site_group_def fun_eq_iff split: sum.splits)
  show ?thesis
    unfolding eq by (rule uniform_cases) (auto simp: uniform_add_group split: sum.splits)
qed

lemma uniform_process_group: "uniform (process_group api token entity)"
proof -
  have eq: "process_group api token entity =
    (\<lambda>r. case py_get entity ''group'' (PDict []) of
        Inl e \<Rightarrow> Inl e
      | Inr grp \<Rightarrow>
          (if truthy grp then
            (case (py_get grp ''id'' (PStr []),
                   py_get grp ''email'' (PStr []),
                   py_get grp ''displayName'' (PStr [])) of
               (Inr group_id, Inr group_email0, Inr group_display_name) \<Rightarrow>
                 (case resolve_group_email api token group_id group_email0 of
                    Inl e \<Rightarrow> (\<lambda>r. Inl e)
                  | Inr group_email \<Rightarrow>
                      if truthy group_email then
                        (case str_of group_email of
                           Inl e \<Rightarrow> (\<lambda>r. Inl e)
                         | Inr s \<Rightarrow> add_group (PStr (py_strip (py_lower s))))
                      else if truthy group_display_name then add_group group_display_name
                      else if truthy group_id then add_group group_id
                      else Inr)
             | _ \<Rightarrow> (\<lambda>r. Inl AttributeError))
          else Inr) r)"
    by (auto simp: process_group_def fun_eq_iff split: sum.splits)
  show ?thesis
    unfolding eq by (rule uniform_cases) (auto simp: uniform_add_group split: sum.splits)
qed

lemma uniform_process_application: "uniform (process_application entity)"
  unfolding uniform_def
  by (auto simp: process_application_def adds_def initial_result_def split: sum.splits)

lemma uniform_process_granted_entity: "uniform (process_granted_entity api token entity)"
  unfolding process_granted_entity_def
  by (intro uniform_seq uniform_process_user uniform_process_site_group uniform_process_group
            uniform_process_application)

lemma uniform_process_identities: "uniform (process_identities api token ids)"
  by (induction ids) (simp_all add: uniform_seq uniform_process_granted_entity)

lemma uniform_process_granted: "uniform (process_granted api token key permission)"
proof -
  have eq: "process_granted api token key permission =
    (\<lambda>r. case py_get permission key (PDict []) of
        Inl e \<Rightarrow> Inl e
      | Inr granted \<Rightarrow>
          (if truthy granted then process_granted_entity api token granted else Inr) r)"
    by (auto simp: process_granted_def fun_eq_iff split: sum.splits)
  show ?thesis
    unfolding eq by (rule uniform_cases) (simp add: uniform_process_granted_entity)
qed

lemma uniform_process_granted_identities:
  "uniform (process_granted_identities api token permission)"
proof -
  have eq: "process_granted_identities api token permission =
    (\<lambda>r. case py_get permission ''grantedToIdentities'' (PList []) of
        Inl e \<Rightarrow> Inl e
      | Inr granted_to_identities \<Rightarrow>
          (case py_iter granted_to_identities of
             Inl e \<Rightarrow> (\<lambda>r. Inl e)
           | Inr identities \<Rightarrow> process_identities api token identities) r)"
    by (auto simp: process_granted_identities_def fun_eq_iff split: sum.splits)
  show ?thesis
    unfolding eq by (rule uniform_cases) (simp add: uniform_process_identities split: sum.splits)
qed

lemma uniform_process_inherited: "uniform (process_inherited permission)"
  unfolding uniform_def
  by (auto simp: process_inherited_def adds_def initial_result_def split: sum.splits)

lemma uniform_process_link: "uniform (process_link permission)"
  unfolding uniform_def
  by (auto simp: process_link_def adds_def initial_result_def Let_def split: sum.splits)

lemma uniform_process_permission_entry: "uniform (process_permission_entry api token permission)"
  unfolding process_permission_entry_def
  by (intro uniform_seq uniform_process_link uniform_process_granted
            uniform_process_granted_identities uniform_process_inherited)

lemma uniform_process_entries: "uniform (process_entries api token entries)"
  by (induction entries) (simp_all add: uniform_seq uniform_process_permission_entry)

lemma process_entries_fails:
  assumes "p \<in> set entries" "entry_delta api token p = Inl e"
  shows "\<exists>e'. process_entries api token entries r = Inl e'"
  using assms
proof (induction entries arbitrary: r)
  case Nil
  then show ?case by simp
next
  case (Cons q entries)
  show ?case
  proof (cases "process_permission_entry api token q r")
    case (Inl e1)
    then show ?thesis by (simp add: seq_def)
  next
    case (Inr r1)
    have "p \<noteq> q"
    proof
      assume "p = q"
      with Cons.prems(2) uniformD_raise [OF uniform_process_permission_entry, of api token q e r] Inr
      show False by (simp add: entry_delta_def)
    qed
    with Cons.prems have "p \<in> set entries" by simp
    from Cons.IH [OF this Cons.prems(2), of r1] Inr show ?thesis by (simp add: seq_def)
  qed
qed

lemma process_entries_succeeds:
  assumes "\<forall>p \<in> set entries. \<exists>d. entry_delta api token p = Inr d"
  shows "\<exists>r'. process_entries api token entries r = Inr r'
           \<and> set (users r') = set (users r) \<union> (\<Union>p \<in> set entries. delta_users (entry_delta api token p))
           \<and> set (groups r') = set (groups r) \<union> (\<Union>p \<in> set entries. delta_groups (entry_delta api token p))
           \<and> sharing_links r' = sharing_links r @ concat (map (\<lambda>p. delta_links (entry_delta api token p)) entries)
           \<and> inheritance r' = (inheritance r \<or> (\<exists>p \<in> set entries. delta_inherited (entry_delta api token p)))
           \<and> access_level r' = level_after (concat (map (\<lambda>p. delta_links (entry_delta api token p)) entries)) (access_level r)"
  using assms
proof (induction entries arbitrary: r)
  case Nil
  then show ?case by simp
next
  case (Cons q entries)
  from Cons.prems obtain d where d: "entry_delta api token q = Inr d" by auto
  from uniformD [OF uniform_process_permission_entry, of api token q d r] d
  obtain r1 where r1: "process_permission_entry api token q r = Inr r1" "adds r d r1"
    by (auto simp: entry_delta_def)
  from Cons.prems have "\<forall>p \<in> set entries. \<exists>d. entry_delta api token p = Inr d" by simp
  from Cons.IH [OF this, of r1] obtain r' where r':
    "process_entries api token entries r1 = Inr r'"
    "set (users r') = set (users r1) \<union> (\<Union>p \<in> set entries. delta_users (entry_delta api token p))"
    "set (groups r') = set (groups r1) \<union> (\<Union>p \<in> set entries. delta_groups (entry_delta api token p))"
    "sharing_links r' = sharing_links r1 @ concat (map (\<lambda>p. delta_links (entry_delta api token p)) entries)"
    "inheritance r' = (inheritance r1 \<or> (\<exists>p \<in> set entries. delta_inherited (entry_delta api token p)))"
    "access_level r' = level_after (concat (map (\<lambda>p. delta_links (entry_delta api token p)) entries)) (access_level r1)"
    by blast
  have "process_entries api token (q # entries) r = Inr r'"
    using r1(1) r'(1) by (simp add: seq_def)
  moreover from r1(2) r'(2-6) d have
    "set (users r') = set (users r) \<union> (\<Union>p \<in> set (q # entries). delta_users (entry_delta api token p))"
    "set (groups r') = set (groups r) \<union> (\<Union>p \<in> set (q # entries). delta_groups (entry_delta api token p))"
    "sharing_links r' = sharing_links r @ concat (map (\<lambda>p. delta_links (entry_delta api token p)) (q # entries))"
    "inheritance r' = (inheritance r \<or> (\<exists>p \<in> set (q # entries). delta_inherited (entry_delta api token p)))"
    "access_level r' = level_after (concat (map (\<lambda>p. delta_links (entry_delta api token p)) (q # entries))) (access_level r)"
    by (auto simp: adds_def delta_users_def delta_groups_def delta_links_def delta_inherited_def)
  ultimately show ?case by blast
qed

lemma process_entries_ok_iff:
  "(\<exists>r'. process_entries api token entries r = Inr r') =
   (\<forall>p \<in> set entries. \<exists>d. entry_delta api token p = Inr d)"
proof
  assume ok: "\<exists>r'. process_entries api token entries r = Inr r'"
  show "\<forall>p \<in> set entries. \<exists>d. entry_delta api token p = Inr d"
  proof
    fix p assume p: "p \<in> set entries"
    show "\<exists>d. entry_delta api token p = Inr d"
    proof (cases "entry_delta api token p")
      case (Inl e)
      from process_entries_fails [OF p Inl, of r] ok show ?thesis by auto
    next
      case (Inr d)
      then show ?thesis by simp
    qed
  qed
next
  assume "\<forall>p \<in> set entries. \<exists>d. entry_delta api token p = Inr d"
  from process_entries_succeeds [OF this, of r] show "\<exists>r'. process_entries api token entries r = Inr r'"
    by blast
qed

lemma escalate_anonymous:
  "has_scope ''anonymous'' links \<Longrightarrow> escalate_links links level = ''public''"
  by (induction links arbitrary: level) (auto simp: has_scope_def)

lemma escalate_no_anonymous:
  "\<not> has_scope ''anonymous'' links \<Longrightarrow>
   escalate_links links level =
     (if level = ''public'' then ''public''
      else if has_scope ''organization'' links then ''organization'' else level)"
  by (induction links arbitrary: level) (auto simp: has_scope_def)

lemma level_after_no_anonymous:
  "\<not> has_scope ''anonymous'' links \<Longrightarrow> level \<noteq> ''public'' \<Longrightarrow>
   level_after links level \<noteq> ''public''"
  by (induction links arbitrary: level) (auto simp: has_scope_def)

lemma level_after_no_scope:
  "\<not> has_scope ''anonymous'' links \<Longrightarrow> \<not> has_scope ''organization'' links \<Longrightarrow>
   level_after links level = level"
  by (induction links arbitrary: level) (auto simp: has_scope_def)

lemma final_level:
  "escalate_links links (level_after links ''private'') =
     (if has_scope ''anonymous'' links then ''public''
      else if has_scope ''organization'' links then ''organization''
      else ''private'')"
proof (cases "has_scope ''anonymous'' links")
  case True
  then show ?thesis by (simp add: escalate_anonymous)
next
  case False
  from level_after_no_anonymous [OF False, of "''private''"]
  have np: "level_after links ''private'' \<noteq> ''public''" by simp
  show ?thesis
  proof (cases "has_scope ''organization'' links")
    case True
    with False np show ?thesis by (simp add: escalate_no_anonymous)
  next
    case no: False
    with False np show ?thesis by (simp add: escalate_no_anonymous level_after_no_scope)
  qed
qed

lemma aggregate_char:
  assumes "aggregate api token (PList entries) = Inr r"
  shows "(\<forall>p \<in> set entries. \<exists>d. entry_delta api token p = Inr d)
       \<and> set (users r) = (\<Union>p \<in> set entries. delta_users (entry_delta api token p))
       \<and> set (groups r) = (\<Union>p \<in> set entries. delta_groups (entry_delta api token p))
       \<and> sharing_links r = concat (map (\<lambda>p. delta_links (entry_delta api token p)) entries)
       \<and> inheritance r = (\<exists>p \<in> set entries. delta_inherited (entry_delta api token p))
       \<and> access_level r =
           level_of (has_scope ''anonymous'' (sharing_links r))
                    (has_scope ''organization'' (sharing_links r))
                    (users r \<noteq> [] \<or> groups r \<noteq> [])"
proof -
  from assms obtain r0 where r0: "process_entries api token entries initial_result = Inr r0"
    by (auto simp: aggregate_def split: sum.splits)
  then have ok: "\<forall>p \<in> set entries. \<exists>d. entry_delta api token p = Inr d"
    using process_entries_ok_iff [of api token entries initial_result] by blast
  from process_entries_succeeds [OF ok, of initial_result] r0
  have c: "set (users r0) = (\<Union>p \<in> set entries. delta_users (entry_delta api token p))"
    "set (groups r0) = (\<Union>p \<in> set entries. delta_groups (entry_delta api token p))"
    "sharing_links r0 = concat (map (\<lambda>p. delta_links (entry_delta api token p)) entries)"
    "inheritance r0 = (\<exists>p \<in> set entries. delta_inherited (entry_delta api token p))"
    "access_level r0 = level_after (sharing_links r0) ''private''"
    by (auto simp: initial_result_def)
  from assms r0 have r: "r = r0\<lparr>access_level :=
      (if (users r0 \<noteq> [] \<or> groups r0 \<noteq> [])
            \<and> escalate_links (sharing_links r0) (access_level r0) = ''private''
       then ''restricted'' else escalate_links (sharing_links r0) (access_level r0))\<rparr>"
    by (simp add: aggregate_def Let_def)
  have lvl: "access_level r =
           level_of (has_scope ''anonymous'' (sharing_links r0))
                    (has_scope ''organization'' (sharing_links r0))
                    (users r0 \<noteq> [] \<or> groups r0 \<noteq> [])"
    unfolding r c(5) by (simp add: final_level level_of_def)
  from ok c lvl show ?thesis unfolding r by simp
qed




lemma process_link_records:
  assumes "link_scope permission = Some sc"
      and "process_link permission r = Inr r'"
  shows "\<exists>link. sharing_links r' = sharing_links r @ [link] \<and> scope link = sc"
proof -
  from assms(1) obtain kvs link where p: "permission = PDict kvs"
    and l: "map_of kvs ''link'' = Some (PDict link)" and s: "map_of link ''scope'' = Some sc"
    by (cases permission) (auto split: option.splits pyval.splits)
  from s have ne: "link \<noteq> []" by auto
  from assms(2) show ?thesis
    unfolding p process_link_def using l s ne
    by (auto simp: Let_def split: sum.splits if_splits)
qed

lemma uniform_after_link:
  "uniform (seq (process_granted api token ''grantedToV2'' permission)
          (seq (process_granted api token ''grantedTo'' permission)
             (seq (process_granted_identities api token permission)
                (process_inherited permission))))"
  by (intro uniform_seq uniform_process_granted uniform_process_granted_identities
            uniform_process_inherited)

lemma uniform_grows:
  assumes "uniform f" "f r = Inr r'"
  shows "set (sharing_links r) \<subseteq> set (sharing_links r')"
proof (cases "f initial_result")
  case (Inl e)
  from uniformD_raise [OF assms(1) Inl, of r] assms(2) show ?thesis by simp
next
  case (Inr d)
  from uniformD [OF assms(1) Inr, of r] assms(2) show ?thesis by (auto simp: adds_def)
qed

lemma entry_delta_records:
  assumes "link_scope permission = Some sc"
      and "entry_delta api token permission = Inr d"
  shows "\<exists>link \<in> set (sharing_links d). scope link = sc"
proof -
  from assms(2) obtain r1 where r1: "process_link permission initial_result = Inr r1"
    and rest: "seq (process_granted api token ''grantedToV2'' permission)
          (seq (process_granted api token ''grantedTo'' permission)
             (seq (process_granted_identities api token permission)
                (process_inherited permission))) r1 = Inr d"
    unfolding entry_delta_def process_permission_entry_def
    by (cases "process_link permission initial_result") (simp_all add: seq_def)
  from process_link_records [OF assms(1) r1] obtain link
    where l: "sharing_links r1 = sharing_links initial_result @ [link]" "scope link = sc"
    by blast
  then have "link \<in> set (sharing_links r1)" by simp
  with uniform_grows [OF uniform_after_link rest] l(2) show ?thesis by blast
qed

lemma aggregate_anonymous:
  assumes "aggregate api token (PList entries) = Inr r"
      and "\<exists>p \<in> set entries. link_scope p = Some (PStr ''anonymous'')"
  shows "access_level r = ''public''"
proof -
  note c = aggregate_char [OF assms(1)]
  from assms(2) obtain p where p: "p \<in> set entries" "link_scope p = Some (PStr ''anonymous'')"
    by blast
  with c obtain d where d: "entry_delta api token p = Inr d" by blast
  from entry_delta_records [OF p(2) d] obtain link
    where "link \<in> set (delta_links (entry_delta api token p))" "scope link = PStr ''anonymous''"
    by (auto simp: delta_links_def d)
  with p(1) c have "has_scope ''anonymous'' (sharing_links r)"
    by (auto simp: has_scope_def)
  with c show ?thesis by (simp add: level_of_def)
qed

text \<open>
  C2, as amended. When \<^verbatim>\<open>get_document_permissions\<close> returns a record without an error
  (the fetch succeeded and no entry made the processing raise) and one of the raw entries
  carries a link of scope \<^verbatim>\<open>anonymous\<close>, the access level is public, whatever the other
  entries and their order.
\<close>

theorem anonymous_link_is_public:
  assumes "get_document_permissions api doc_id drive_id = Inr perms"
      and "p_error perms = None"
      and "p_raw_permissions perms = Some (PList entries)"
      and "\<exists>p \<in> set entries. link_scope p = Some (PStr ''anonymous'')"
  shows "p_access_level perms = ''public''"
proof -
  from assms(1,2,3) obtain token r where "aggregate api token (PList entries) = Inr r"
    and "p_access_level perms = access_level r"
    by (auto simp: get_document_permissions_def error_permissions_def split: sum.splits)
  with aggregate_anonymous [OF _ assms(4)] show ?thesis by simp
qed

theorem anonymous_link_is_public_witness:
  "get_document_permissions
      (graph_with (PList [entry_organization, entry_anonymous, entry_group])) ''doc'' ''drive''
     = Inr perms_example
   \<and> p_error perms_example = None
   \<and> p_raw_permissions perms_example = Some (PList [entry_organization, entry_anonymous, entry_group])
   \<and> link_scope entry_anonymous = Some (PStr ''anonymous'')
   \<and> p_access_level perms_example = ''public''"
proof -
  have run: "get_document_permissions
      (graph_with (PList [entry_organization, entry_anonymous, entry_group])) ''doc'' ''drive''
     = Inr perms_example"
    by code_simp
  have e: "p_error perms_example = None"
    and raw: "p_raw_permissions perms_example
               = Some (PList [entry_organization, entry_anonymous, entry_group])"
    by (simp_all add: perms_example_def)
  have sc: "link_scope entry_anonymous = Some (PStr ''anonymous'')" by code_simp
  then have ex: "\<exists>p \<in> set [entry_organization, entry_anonymous, entry_group].
                  link_scope p = Some (PStr ''anonymous'')" by simp
  from anonymous_link_is_public [OF run e raw ex] run e raw sc show ?thesis by blast
qed

text \<open>
  The claim as first stated fails when an entry makes the processing raise: with an
  anonymous link followed by a grant whose user has a null e-mail, the fetch succeeds,
  line 151 raises, and the record returned is the private one.
\<close>

theorem anonymous_link_counterexample:
  "get_document_permissions (graph_with (PList [entry_anonymous, entry_null_email])) ''doc'' ''drive''
     = Inr \<lparr>p_users = [], p_groups = [], p_access_level = ''private'',
             p_inheritance = None, p_sharing_links = None,
             p_raw_permissions = None, p_error = Some AttributeError\<rparr>
   \<and> link_scope entry_anonymous = Some (PStr ''anonymous'')"
  by code_simp

lemma get_document_permissions_after_token:
  assumes "get_access_token api = Inr token"
  shows "\<exists>perms. get_document_permissions api doc_id drive_id = Inr perms
           \<and> ((\<exists>e. fetch_permissions api token doc_id drive_id = Inl e) \<longrightarrow>
                p_users perms = [] \<and> p_groups perms = [] \<and> p_access_level perms = ''private''
                \<and> p_error perms \<noteq> None)
           \<and> (\<forall>permissions. fetch_permissions api token doc_id drive_id = Inr permissions
                \<and> (\<exists>e. aggregate api token permissions = Inl e) \<longrightarrow>
                p_users perms = [] \<and> p_groups perms = [] \<and> p_access_level perms = ''private''
                \<and> p_error perms \<noteq> None)"
  using assms
  by (auto simp: get_document_permissions_def error_permissions_def split: sum.splits)


end
